theory Spec2Isabelle
  imports Main "HOL-Library.List_Lexorder" "HOL-Library.Char_ord"
begin

section \<open>Python values and library functions\<close>

text \<open>
  A Python \<open>bytes\<close> is a \<open>string\<close>: a list of 8-bit characters. A Python \<open>str\<close> is
  modelled by its UTF-8 bytes, so the program's Chinese literals are byte lists and every
  ASCII text is itself; \<open>chars\<close> splits such a text into its code points.

  \<open>str_nat\<close> is \<open>str(counter)\<close> of the f-strings, for a counter that starts at 1 and
  only grows; \<open>digit_val\<close> is the value of an ASCII digit and \<open>int_of_digits\<close> is \<open>int\<close>
  on a text of ASCII digits.
\<close>

definition digit_char :: "nat \<Rightarrow> char" where
  "digit_char d = ''0123456789'' ! d"

fun str_nat :: "nat \<Rightarrow> string" where
  "str_nat n = (if n < 10 then [digit_char n] else str_nat (n div 10) @ [digit_char (n mod 10)])"

declare str_nat.simps [simp del]

definition digit_val :: "char \<Rightarrow> nat" where
  "digit_val c = of_char c - 48"

definition int_of_digits :: "string \<Rightarrow> nat" where
  "int_of_digits s = foldl (\<lambda>a c. 10 * a + digit_val c) 0 s"

subsection \<open>Decoding bytes\<close>

text \<open>
  \<^verbatim>\<open>bytes.decode('utf-8', errors='ignore')\<close> keeps every well-formed UTF-8 sequence and
  drops every byte that is not part of one. \<open>utf8_seq_len\<close> is the length of the
  well-formed sequence at the head of the bytes (0 when there is none).
\<close>

definition byte_in :: "char \<Rightarrow> nat \<Rightarrow> nat \<Rightarrow> bool" where
  "byte_in c lo hi = (lo \<le> of_char c \<and> (of_char c :: nat) \<le> hi)"

fun utf8_seq_len :: "string \<Rightarrow> nat" where
  "utf8_seq_len [] = 0"
| "utf8_seq_len (a # rest) =
     (if byte_in a 0x00 0x7F then 1
      else if byte_in a 0xC2 0xDF then
        (case rest of
           b # _ \<Rightarrow> if byte_in b 0x80 0xBF then 2 else 0
         | _ \<Rightarrow> 0)
      else if byte_in a 0xE0 0xEF then
        (case rest of
           b # c # _ \<Rightarrow>
             if byte_in b (if a = CHR 0xE0 then 0xA0 else 0x80) (if a = CHR 0xED then 0x9F else 0xBF)
                \<and> byte_in c 0x80 0xBF
             then 3 else 0
         | _ \<Rightarrow> 0)
      else if byte_in a 0xF0 0xF4 then
        (case rest of
           b # c # d # _ \<Rightarrow>
             if byte_in b (if a = CHR 0xF0 then 0x90 else 0x80) (if a = CHR 0xF4 then 0x8F else 0xBF)
                \<and> byte_in c 0x80 0xBF \<and> byte_in d 0x80 0xBF
             then 4 else 0
         | _ \<Rightarrow> 0)
      else 0)"

function decode_utf8_ignore :: "string \<Rightarrow> string" where
  "decode_utf8_ignore [] = []"
| "decode_utf8_ignore (b # bs) =
     (if utf8_seq_len (b # bs) = 0 then decode_utf8_ignore bs
      else take (utf8_seq_len (b # bs)) (b # bs)
           @ decode_utf8_ignore (drop (utf8_seq_len (b # bs)) (b # bs)))"
  by pat_completeness auto

termination
  by (relation "measure length") auto

subsection \<open>Code points and the platform\<close>

text \<open>
  What the program's result depends on outside its own text is the \<open>platform\<close>: the
  Unicode database of the interpreter, which says which code points beyond ASCII are
  decimal digits (\<open>unicode_decimal\<close>, with the digit's value) and which are whitespace
  (\<open>unicode_space\<close>), and the C library, whose \<open>strftime\<close> pads a year below 1000 with
  zeros or not (\<open>pads_year\<close>). The ASCII part of both tables is fixed:
  \<open>is_whitespace\<close> is \<open>str.isspace\<close> of one code point and \<open>decimal_value\<close> its decimal
  digit value. \<open>int_of_text\<close> is \<open>int\<close> on a text of digits of any script, after leading
  whitespace, and \<open>strip\<close> is \<open>str.strip()\<close>.
\<close>

record platform =
  unicode_decimal :: "string \<Rightarrow> nat option"
  unicode_space :: "string \<Rightarrow> bool"
  pads_year :: bool

function chars :: "string \<Rightarrow> string list" where
  "chars [] = []"
| "chars (b # bs) =
     (if utf8_seq_len (b # bs) \<le> 1 then [b] # chars bs
      else take (utf8_seq_len (b # bs)) (b # bs) # chars (drop (utf8_seq_len (b # bs)) (b # bs)))"
  by pat_completeness auto

termination
  by (relation "measure length") auto

definition is_space :: "char \<Rightarrow> bool" where
  "is_space c = (c \<in> set [CHR 0x09, CHR 0x0A, CHR 0x0B, CHR 0x0C, CHR 0x0D,
                            CHR 0x1C, CHR 0x1D, CHR 0x1E, CHR 0x1F, CHR '' ''])"

definition is_whitespace :: "platform \<Rightarrow> string \<Rightarrow> bool" where
  "is_whitespace P cp = (case cp of [c] \<Rightarrow> is_space c | _ \<Rightarrow> unicode_space P cp)"

definition digits :: string where
  "digits = ''0123456789''"

definition decimal_value :: "platform \<Rightarrow> string \<Rightarrow> nat option" where
  "decimal_value P cp =
     (case cp of
        [c] \<Rightarrow> if c \<in> set digits then Some (digit_val c) else None
      | _ \<Rightarrow>
          (case unicode_decimal P cp of
             Some d \<Rightarrow> if d < 10 then Some d else None
           | None \<Rightarrow> None))"

definition int_of_text :: "platform \<Rightarrow> string list \<Rightarrow> nat" where
  "int_of_text P cps =
     foldl (\<lambda>a cp. 10 * a + (case decimal_value P cp of Some v \<Rightarrow> v | None \<Rightarrow> 0)) 0
       (dropWhile (is_whitespace P) cps)"

definition strip :: "platform \<Rightarrow> string \<Rightarrow> string" where
  "strip P s =
     concat (rev (dropWhile (is_whitespace P) (rev (dropWhile (is_whitespace P) (chars s)))))"

text \<open>
  \<open>strip_nul\<close> is \<^verbatim>\<open>.strip('\x00')\<close>, \<open>remove_spaces\<close> is \<^verbatim>\<open>.replace(" ", "")\<close>,
  and \<open>contains needle s\<close> is \<^verbatim>\<open>needle in s\<close>. \<open>lower\<close> is \<open>str.lower()\<close> on the ASCII
  letters; the program only compares its result with ASCII file extensions that no
  other letter lowers into.
\<close>

definition strip_nul :: "string \<Rightarrow> string" where
  "strip_nul s = rev (dropWhile (\<lambda>c. c = CHR 0x00) (rev (dropWhile (\<lambda>c. c = CHR 0x00) s)))"

definition remove_spaces :: "string \<Rightarrow> string" where
  "remove_spaces s = filter (\<lambda>c. c \<noteq> CHR '' '') s"

definition ascii_lower :: "char \<Rightarrow> char" where
  "ascii_lower c =
     (case map_of (zip ''ABCDEFGHIJKLMNOPQRSTUVWXYZ'' ''abcdefghijklmnopqrstuvwxyz'') c of
        Some l \<Rightarrow> l
      | None \<Rightarrow> c)"

definition lower :: "string \<Rightarrow> string" where
  "lower s = map ascii_lower s"

fun contains :: "string \<Rightarrow> string \<Rightarrow> bool" where
  "contains needle [] = (needle = [])"
| "contains needle (c # cs) = (take (length needle) (c # cs) = needle \<or> contains needle cs)"

subsection \<open>struct.unpack and slices\<close>

text \<open>
  \<open>unpack_H\<close> and \<open>unpack_L\<close> are \<^verbatim>\<open>struct.unpack(endian + 'H', bs)[0]\<close> and the same
  with \<^verbatim>\<open>'L'\<close>: an unsigned integer of 2 or 4 bytes in the given byte order, and
  \<open>None\<close> for \<open>struct.error\<close> when the buffer has another length.
  \<open>slice xs a b\<close> is \<^verbatim>\<open>xs[a:b]\<close> for \<open>0 \<le> a\<close>, which never raises.
\<close>

datatype endian = Little | Big

definition unpack_uint :: "endian \<Rightarrow> string \<Rightarrow> nat" where
  "unpack_uint e bs =
     (case e of
        Little \<Rightarrow> foldr (\<lambda>b acc. of_char b + 256 * acc) bs 0
      | Big \<Rightarrow> foldl (\<lambda>acc b. 256 * acc + of_char b) 0 bs)"

definition unpack_H :: "endian \<Rightarrow> string \<Rightarrow> nat option" where
  "unpack_H e bs = (if length bs = 2 then Some (unpack_uint e bs) else None)"

definition unpack_L :: "endian \<Rightarrow> string \<Rightarrow> nat option" where
  "unpack_L e bs = (if length bs = 4 then Some (unpack_uint e bs) else None)"

definition slice :: "string \<Rightarrow> nat \<Rightarrow> nat \<Rightarrow> string" where
  "slice xs a b = take (b - a) (drop a xs)"

subsection \<open>Paths and the file system\<close>

text \<open>
  \<open>os.path\<close> as \<open>posixpath\<close> defines it. \<open>os_path_join\<close> joins two components: an
  absolute second component replaces the first. \<open>os_path_splitext\<close> splits at the last
  dot of the last path component unless only dots precede it.

  The file system is the set of paths for which \<open>os.path.exists\<close> answers true.
  \<open>os_rename\<close> raises when the source does not exist, and when the operating system
  refuses the rename for another reason (permissions, a path too long), which the
  parameter \<open>refused\<close> decides; otherwise the source path is gone and the target exists.
\<close>

definition os_path_join :: "string \<Rightarrow> string \<Rightarrow> string" where
  "os_path_join a b =
     (if b \<noteq> [] \<and> hd b = CHR ''/'' then b
      else if a = [] \<or> last a = CHR ''/'' then a @ b
      else a @ ''/'' @ b)"

definition os_path_basename :: "string \<Rightarrow> string" where
  "os_path_basename p = rev (takeWhile (\<lambda>c. c \<noteq> CHR ''/'') (rev p))"

definition os_path_dirname :: "string \<Rightarrow> string" where
  "os_path_dirname p =
     (let head = rev (dropWhile (\<lambda>c. c \<noteq> CHR ''/'') (rev p))
      in if head \<noteq> [] \<and> head \<noteq> replicate (length head) CHR ''/''
         then rev (dropWhile (\<lambda>c. c = CHR ''/'') (rev head))
         else head)"

definition os_path_splitext :: "string \<Rightarrow> string \<times> string" where
  "os_path_splitext p =
     (let tail = os_path_basename p;
          ext = CHR ''.'' # rev (takeWhile (\<lambda>c. c \<noteq> CHR ''.'') (rev tail));
          stem = take (length tail - length ext) tail
      in if CHR ''.'' \<in> set tail \<and> (\<exists>c \<in> set stem. c \<noteq> CHR ''.'')
         then (take (length p - length ext) p, ext)
         else (p, []))"

type_synonym filesystem = "string set"

definition os_path_exists :: "filesystem \<Rightarrow> string \<Rightarrow> bool" where
  "os_path_exists fs p = (p \<in> fs)"

datatype py_exception = PyException string

definition os_rename ::
  "(string \<Rightarrow> string \<Rightarrow> bool) \<Rightarrow> filesystem \<Rightarrow> string \<Rightarrow> string \<Rightarrow> py_exception + filesystem" where
  "os_rename refused fs src dst =
     (if src \<notin> fs then Inl (PyException ''FileNotFoundError'')
      else if refused src dst then Inl (PyException ''OSError'')
      else Inr (insert dst (fs - {src})))"

subsection \<open>datetime.strptime and strftime\<close>

text \<open>
  \<open>strptime\<close> follows CPython's \<^verbatim>\<open>_strptime\<close>: the format is turned into a regular
  expression, each directive into a named group with the alternatives of
  \<open>directive_regex\<close> (in the order of the library's table; \<open>AnyDigit\<close> is \<^verbatim>\<open>\d\<close>,
  a decimal digit of any script), each run of whitespace into \<^verbatim>\<open>\s+\<close>, and every other
  character into itself, matched without regard to case. The formats of the program
  are ASCII texts. The expression is matched at the start of the text, code point by
  code point, by backtracking
  (\<open>regex_match\<close> returns the first match in the order a backtracking matcher finds
  them); text left over after the match, or no match, is a \<open>ValueError\<close>. The groups
  are converted with \<open>int\<close>, a missing group takes its default, and the \<open>datetime\<close>
  constructor (\<open>datetime_new\<close>) checks every field's range, raising \<open>ValueError\<close>
  otherwise. \<open>None\<close> stands for the \<open>ValueError\<close>.
\<close>

datatype directive = DY | Dm | Dd | DH | DM | DS | Df

datatype fmt_item = Directive directive | Literal char | Whitespace

function compile_format :: "string \<Rightarrow> fmt_item list option" where
  "compile_format [] = Some []"
| "compile_format (c # cs) =
     (if c = CHR ''%'' then
        (case cs of
           [] \<Rightarrow> None
         | d # rest \<Rightarrow>
             (case map_of [(CHR ''Y'', DY), (CHR ''m'', Dm), (CHR ''d'', Dd), (CHR ''H'', DH),
                           (CHR ''M'', DM), (CHR ''S'', DS), (CHR ''f'', Df)] d of
                None \<Rightarrow> None
              | Some dir \<Rightarrow> map_option ((#) (Directive dir)) (compile_format rest)))
      else if is_space c then map_option ((#) Whitespace) (compile_format (dropWhile is_space cs))
      else map_option ((#) (Literal c)) (compile_format cs))"
  by pat_completeness auto

termination
  by (relation "measure length") (auto simp: le_imp_less_Suc length_dropWhile_le)

datatype char_class = OneOf string | AnyDigit

fun in_class :: "platform \<Rightarrow> char_class \<Rightarrow> string \<Rightarrow> bool" where
  "in_class P (OneOf s) cp = (case cp of [c] \<Rightarrow> c \<in> set s | _ \<Rightarrow> False)"
| "in_class P AnyDigit cp = (decimal_value P cp \<noteq> None)"

definition directive_regex :: "directive \<Rightarrow> char_class list list" where
  "directive_regex d =
     (case d of
        DY \<Rightarrow> [[AnyDigit, AnyDigit, AnyDigit, AnyDigit]]
      | Dm \<Rightarrow> [[OneOf ''1'', OneOf ''012''], [OneOf ''0'', OneOf ''123456789''],
                [OneOf ''123456789'']]
      | Dd \<Rightarrow> [[OneOf ''3'', OneOf ''01''], [OneOf ''12'', AnyDigit],
                [OneOf ''0'', OneOf ''123456789''], [OneOf ''123456789''],
                [OneOf '' '', OneOf ''123456789'']]
      | DH \<Rightarrow> [[OneOf ''2'', OneOf ''0123''], [OneOf ''01'', AnyDigit], [AnyDigit]]
      | DM \<Rightarrow> [[OneOf ''012345'', AnyDigit], [AnyDigit]]
      | DS \<Rightarrow> [[OneOf ''6'', OneOf ''01''], [OneOf ''012345'', AnyDigit], [AnyDigit]]
      | Df \<Rightarrow> [replicate 6 (OneOf digits), replicate 5 (OneOf digits),
                replicate 4 (OneOf digits), replicate 3 (OneOf digits),
                replicate 2 (OneOf digits), [OneOf digits]])"

fun match_classes ::
  "platform \<Rightarrow> char_class list \<Rightarrow> string list \<Rightarrow> (string list \<times> string list) option" where
  "match_classes P [] s = Some ([], s)"
| "match_classes P (cls # rest) [] = None"
| "match_classes P (cls # rest) (cp # s) =
     (if in_class P cls cp then map_option (\<lambda>(m, r). (cp # m, r)) (match_classes P rest s)
      else None)"

fun greedy_splits :: "nat \<Rightarrow> string list \<Rightarrow> (string list \<times> string list) list" where
  "greedy_splits 0 s = []"
| "greedy_splits (Suc k) s = (take (Suc k) s, drop (Suc k) s) # greedy_splits k s"

fun alternatives ::
  "platform \<Rightarrow> fmt_item \<Rightarrow> string list \<Rightarrow> (string list \<times> string list) list" where
  "alternatives P (Directive d) s =
     List.map_filter (\<lambda>alt. match_classes P alt s) (directive_regex d)"
| "alternatives P (Literal c) [] = []"
| "alternatives P (Literal c) (cp # s) =
     (if (case cp of [x] \<Rightarrow> ascii_lower x = ascii_lower c | _ \<Rightarrow> False) then [([cp], s)]
      else [])"
| "alternatives P Whitespace s = greedy_splits (length (takeWhile (is_whitespace P) s)) s"

type_synonym found_dict = "(directive \<times> string list) list"

fun add_group :: "fmt_item \<Rightarrow> string list \<Rightarrow> found_dict \<Rightarrow> found_dict" where
  "add_group (Directive d) m groups = (d, m) # groups"
| "add_group _ m groups = groups"

fun first_some :: "'a option list \<Rightarrow> 'a option" where
  "first_some [] = None"
| "first_some (None # xs) = first_some xs"
| "first_some (Some x # xs) = Some x"

fun regex_match ::
  "platform \<Rightarrow> fmt_item list \<Rightarrow> string list \<Rightarrow> (found_dict \<times> string list) option" where
  "regex_match P [] s = Some ([], s)"
| "regex_match P (item # items) s =
     first_some (map (\<lambda>(m, r). map_option (\<lambda>(groups, rest). (add_group item m groups, rest))
                                   (regex_match P items r))
                     (alternatives P item s))"

record datetime =
  year :: nat
  month :: nat
  day :: nat
  hour :: nat
  minute :: nat
  second :: nat
  microsecond :: nat

definition is_leap :: "nat \<Rightarrow> bool" where
  "is_leap y = (y mod 4 = 0 \<and> (y mod 100 \<noteq> 0 \<or> y mod 400 = 0))"

definition days_in_month :: "nat \<Rightarrow> nat \<Rightarrow> nat" where
  "days_in_month y m =
     (if m = 2 \<and> is_leap y then 29 else [0, 31, 28, 31, 30, 31, 30, 31, 31, 30, 31, 30, 31] ! m)"

definition datetime_new :: "nat \<Rightarrow> nat \<Rightarrow> nat \<Rightarrow> nat \<Rightarrow> nat \<Rightarrow> nat \<Rightarrow> nat \<Rightarrow> datetime option" where
  "datetime_new y mo d h mi s us =
     (if 1 \<le> y \<and> y \<le> 9999 \<and> 1 \<le> mo \<and> mo \<le> 12 \<and> 1 \<le> d \<and> d \<le> days_in_month y mo
         \<and> h \<le> 23 \<and> mi \<le> 59 \<and> s \<le> 59 \<and> us \<le> 999999
      then Some \<lparr>year = y, month = mo, day = d, hour = h, minute = mi, second = s,
                 microsecond = us\<rparr>
      else None)"

definition group_int :: "platform \<Rightarrow> found_dict \<Rightarrow> directive \<Rightarrow> nat \<Rightarrow> nat" where
  "group_int P groups d dflt =
     (case map_of groups d of
        None \<Rightarrow> dflt
      | Some m \<Rightarrow> int_of_text P m)"

definition fraction :: "platform \<Rightarrow> found_dict \<Rightarrow> nat" where
  "fraction P groups =
     (case map_of groups Df of
        None \<Rightarrow> 0
      | Some m \<Rightarrow> int_of_text P (m @ replicate (6 - length m) ''0''))"

definition strptime :: "platform \<Rightarrow> string \<Rightarrow> string \<Rightarrow> datetime option" where
  "strptime P data_string fmt =
     (case compile_format fmt of
        None \<Rightarrow> None
      | Some items \<Rightarrow>
          (case regex_match P items (chars data_string) of
             None \<Rightarrow> None
           | Some (groups, rest) \<Rightarrow>
               if rest \<noteq> [] then None
               else datetime_new (group_int P groups DY 1900) (group_int P groups Dm 1)
                      (group_int P groups Dd 1) (group_int P groups DH 0)
                      (group_int P groups DM 0) (group_int P groups DS 0)
                      (fraction P groups)))"

text \<open>
  \<open>strftime\<close> is \<^verbatim>\<open>dt_obj.strftime("%Y%m%d_%H%M%S")\<close>. The month, day, hour, minute
  and second are padded with zeros to two digits; the year is printed by the C library,
  which pads it to four digits on some platforms and prints it as it is on others.
\<close>

definition zfill :: "nat \<Rightarrow> string \<Rightarrow> string" where
  "zfill w s = replicate (w - length s) CHR ''0'' @ s"

definition strftime :: "platform \<Rightarrow> datetime \<Rightarrow> string" where
  "strftime P dt =
     (if pads_year P then zfill 4 (str_nat (year dt)) else str_nat (year dt))
     @ zfill 2 (str_nat (month dt)) @ zfill 2 (str_nat (day dt))
     @ ''_'' @ zfill 2 (str_nat (hour dt)) @ zfill 2 (str_nat (minute dt))
     @ zfill 2 (str_nat (second dt))"

section \<open>ExifWorker\<close>

text \<open>
  \<open>unknown_time\<close> is the program's literal for "no time" (four Chinese characters, 12
  bytes of UTF-8) and \<open>zero_time\<close> the all-zero timestamp that cameras write for an
  unset clock.

  \<open>process_files\<close> builds one dictionary per file. A dictionary has one of two key
  sets, told apart by its \<open>error\<close> entry: with \<open>error = None\<close> it holds \<open>filepath\<close>,
  \<open>old_name\<close>, \<open>date_time\<close>, \<open>camera_model\<close>, \<open>base_name\<close> and \<open>extension\<close>
  (\<open>Renamable\<close>, in this order); otherwise \<open>filepath\<close>, \<open>old_name\<close>, \<open>date_time\<close>,
  \<open>camera_model\<close>, the \<open>error\<close> tag and \<open>new_name\<close> (\<open>Unreadable\<close>).
\<close>

definition unknown_time :: string where
  "unknown_time = [CHR 0xE6, CHR 0x9C, CHR 0xAA, CHR 0xE7, CHR 0x9F, CHR 0xA5,
                   CHR 0xE6, CHR 0x97, CHR 0xB6, CHR 0xE9, CHR 0x97, CHR 0xB4]"

definition zero_time :: string where
  "zero_time = ''0000:00:00 00:00:00''"

datatype error_code = NO_HEIC_SUPPORT | EXIF_ERROR | NO_EXIF_TIME | PROCESS_ERROR

datatype scan_result =
    Renamable string string string string string string
  | Unreadable string string "string option" "string option"
      error_code string

subsection \<open>format_datetime_string\<close>

text \<open>
  The formats are tried in the order of the list; the first one that \<open>strptime\<close>
  accepts for the stripped text decides the result. Every caller passes a \<open>str\<close>, so
  the conversions of other argument types are not modelled.
\<close>

definition formats :: "string list" where
  "formats =
     [''%Y:%m:%d %H:%M:%S'',
      ''%Y-%m-%d %H:%M:%S'',
      ''%Y/%m/%d %H:%M:%S'',
      ''%Y:%m:%d %H:%M:%S.%f'',
      ''%Y-%m-%d %H:%M:%S.%f'',
      ''%Y-%m-%dT%H:%M:%S'',
      ''%Y-%m-%dT%H:%M:%SZ'',
      ''%Y:%m:%d %H:%M'',
      ''%Y-%m-%d %H:%M'',
      ''%Y/%m/%d %H:%M'']"

fun try_formats :: "platform \<Rightarrow> string list \<Rightarrow> string \<Rightarrow> string" where
  "try_formats P [] date_time_str = unknown_time"
| "try_formats P (fmt # fmts) date_time_str =
     (case strptime P (strip P date_time_str) fmt of
        Some dt_obj \<Rightarrow> strftime P dt_obj
      | None \<Rightarrow> try_formats P fmts date_time_str)"

definition format_datetime_string :: "platform \<Rightarrow> string \<Rightarrow> string" where
  "format_datetime_string P date_time_str =
     (if date_time_str = [] then unknown_time else try_formats P formats date_time_str)"

subsection \<open>parse_exif_with_pil\<close>

text \<open>
  \<open>exifdata\<close> is the tag dictionary in its iteration order; its values are \<open>bytes\<close>,
  \<open>str\<close>, or another type given by its \<open>str()\<close> text. \<open>TAGS\<close> is the library's table
  from tag ids to names, a parameter here; a tag id without a name stays a number and
  equals no field name.

  \<open>scan_field\<close> is the inner loop of the first pass, for one field name: it stops at
  the first tag of that name whose stripped value is neither empty nor \<open>zero_time\<close>, and
  on its way updates the camera model from the \<open>Model\<close> and \<open>Make\<close> tags it passes.
  \<open>scan_fields\<close> is the outer loop over the field names, which stops as soon as a time
  was found. \<open>scan_all_tags\<close> is the second pass, run when the first found no time.
\<close>

datatype exif_value = Bytes string | Str string | Other string

fun to_text :: "exif_value \<Rightarrow> string" where
  "to_text (Bytes b) = decode_utf8_ignore b"
| "to_text (Str s) = s"
| "to_text (Other repr) = repr"

type_synonym exifdata = "(nat \<times> exif_value) list"

definition exif_get :: "exifdata \<Rightarrow> nat \<Rightarrow> exif_value" where
  "exif_get exifdata tag_id = (case map_of exifdata tag_id of Some v \<Rightarrow> v | None \<Rightarrow> Other ''None'')"

definition time_fields :: "string list" where
  "time_fields = [''DateTimeOriginal'', ''DateTime'', ''DateTimeDigitized'', ''CreateDate'',
                  ''ModifyDate'']"

type_synonym tag_table = "nat \<Rightarrow> string option"

fun scan_field ::
  "platform \<Rightarrow> tag_table \<Rightarrow> exifdata \<Rightarrow> string \<Rightarrow> nat list \<Rightarrow> string option \<times> string
   \<Rightarrow> string option \<times> string" where
  "scan_field P TAGS exifdata field [] (date_time, camera_model) = (date_time, camera_model)"
| "scan_field P TAGS exifdata field (tag_id # tag_ids) (date_time, camera_model) =
     (if TAGS tag_id = Some field then
        (if strip P (to_text (exif_get exifdata tag_id)) \<noteq> []
            \<and> strip P (to_text (exif_get exifdata tag_id)) \<noteq> zero_time
         then (Some (strip P (to_text (exif_get exifdata tag_id))), camera_model)
         else scan_field P TAGS exifdata field tag_ids (date_time, camera_model))
      else if TAGS tag_id = Some ''Model'' then
        scan_field P TAGS exifdata field tag_ids
          (date_time, remove_spaces (strip P (to_text (exif_get exifdata tag_id))))
      else if TAGS tag_id = Some ''Make'' then
        (if strip P (to_text (exif_get exifdata tag_id)) \<noteq> [] \<and> camera_model = ''Unknown''
         then scan_field P TAGS exifdata field tag_ids
                (date_time, remove_spaces (strip P (to_text (exif_get exifdata tag_id))))
         else scan_field P TAGS exifdata field tag_ids (date_time, camera_model))
      else scan_field P TAGS exifdata field tag_ids (date_time, camera_model))"

fun scan_fields ::
  "platform \<Rightarrow> tag_table \<Rightarrow> exifdata \<Rightarrow> string list \<Rightarrow> string option \<times> string \<Rightarrow> string option \<times> string" where
  "scan_fields P TAGS exifdata [] st = st"
| "scan_fields P TAGS exifdata (field # more_fields) st =
     (case scan_field P TAGS exifdata field (map fst exifdata) st of
        (Some date_time, camera_model) \<Rightarrow> (Some date_time, camera_model)
      | (None, camera_model) \<Rightarrow> scan_fields P TAGS exifdata more_fields (None, camera_model))"

fun scan_all_tags ::
  "platform \<Rightarrow> tag_table \<Rightarrow> exifdata \<Rightarrow> nat list \<Rightarrow> string option \<times> string \<Rightarrow> string option \<times> string" where
  "scan_all_tags P TAGS exifdata [] (date_time, camera_model) = (date_time, camera_model)"
| "scan_all_tags P TAGS exifdata (tag_id # tag_ids) (date_time, camera_model) =
     (if TAGS tag_id \<in> Some ` set time_fields then
        (if strip P (to_text (exif_get exifdata tag_id)) \<noteq> []
            \<and> strip P (to_text (exif_get exifdata tag_id)) \<noteq> zero_time
         then (Some (strip P (to_text (exif_get exifdata tag_id))), camera_model)
         else scan_all_tags P TAGS exifdata tag_ids (date_time, camera_model))
      else if TAGS tag_id = Some ''Model'' then
        scan_all_tags P TAGS exifdata tag_ids
          (date_time, remove_spaces (strip P (to_text (exif_get exifdata tag_id))))
      else if TAGS tag_id = Some ''Make'' then
        (if strip P (to_text (exif_get exifdata tag_id)) \<noteq> [] \<and> camera_model = ''Unknown''
         then scan_all_tags P TAGS exifdata tag_ids
                (date_time, remove_spaces (strip P (to_text (exif_get exifdata tag_id))))
         else scan_all_tags P TAGS exifdata tag_ids (date_time, camera_model))
      else scan_all_tags P TAGS exifdata tag_ids (date_time, camera_model))"

definition parse_exif_with_pil :: "platform \<Rightarrow> tag_table \<Rightarrow> exifdata \<Rightarrow> string \<times> string" where
  "parse_exif_with_pil P TAGS exifdata =
     (case (case scan_fields P TAGS exifdata time_fields (None, ''Unknown'') of
              (Some date_time, camera_model) \<Rightarrow> (Some date_time, camera_model)
            | (None, camera_model) \<Rightarrow>
                scan_all_tags P TAGS exifdata (map fst exifdata) (None, camera_model)) of
        (Some date_time, camera_model) \<Rightarrow>
          if format_datetime_string P date_time \<noteq> unknown_time
          then (format_datetime_string P date_time, camera_model)
          else (unknown_time, camera_model)
      | (None, camera_model) \<Rightarrow> (unknown_time, camera_model))"

text \<open>The entries of the library's \<open>TAGS\<close> table for the tag ids the program reads.\<close>

definition exif_tags :: tag_table where
  "exif_tags = map_of [(271, ''Make''), (272, ''Model''), (306, ''DateTime''),
                       (36867, ''DateTimeOriginal''), (36868, ''DateTimeDigitized'')]"

subsection \<open>parse_ifd, parse_tiff_data and parse_raw_exif\<close>

text \<open>
  \<open>ifd_field\<close> is the body of the entry loop of \<open>parse_ifd\<close> once the four numbers of
  the entry are unpacked. In each of the three branches the source assigns
  \<^verbatim>\<open>value_data = entry_data[8:12]\<close> when \<open>count \<le> 4\<close> and does nothing more with it: the
  decoding is nested in the \<open>else\<close> branch. \<open>ifd_entry\<close> is one iteration, \<open>None\<close> when
  an exception leaves the loop for the handler of \<open>parse_ifd\<close>.
\<close>

definition ifd_field ::
  "platform \<Rightarrow> string \<Rightarrow> nat \<Rightarrow> nat \<Rightarrow> nat \<Rightarrow> string \<times> string \<Rightarrow> string \<times> string" where
  "ifd_field P tiff_data tag_id count value_offset st =
     (case st of (date_time, camera_model) \<Rightarrow>
      if tag_id \<in> set [306, 36867, 36868] then
        (if count < 20 then
           (if count \<le> 4 then (date_time, camera_model)
            else if value_offset < length tiff_data
                    \<and> length (slice tiff_data value_offset (value_offset + count)) \<ge> count
            then
              (let date_str =
                     strip_nul (decode_utf8_ignore
                                  (slice tiff_data value_offset (value_offset + count)))
               in if date_str \<noteq> [] \<and> date_str \<noteq> zero_time
                     \<and> format_datetime_string P date_str \<noteq> unknown_time
                  then (format_datetime_string P date_str, camera_model)
                  else (date_time, camera_model))
            else (date_time, camera_model))
         else (date_time, camera_model))
      else if tag_id = 272 then
        (if count \<le> 4 then (date_time, camera_model)
         else if value_offset < length tiff_data
                 \<and> length (slice tiff_data value_offset (value_offset + count)) \<ge> count
         then
           (let model_str =
                  remove_spaces (strip P (strip_nul (decode_utf8_ignore
                     (slice tiff_data value_offset (value_offset + count)))))
            in if model_str \<noteq> [] then (date_time, model_str) else (date_time, camera_model))
         else (date_time, camera_model))
      else if tag_id = 271 then
        (if count \<le> 4 then (date_time, camera_model)
         else if value_offset < length tiff_data
                 \<and> length (slice tiff_data value_offset (value_offset + count)) \<ge> count
         then
           (let make_str =
                  remove_spaces (strip P (strip_nul (decode_utf8_ignore
                     (slice tiff_data value_offset (value_offset + count)))))
            in if make_str \<noteq> [] \<and> camera_model = ''Unknown'' then (date_time, make_str)
               else (date_time, camera_model))
         else (date_time, camera_model))
      else (date_time, camera_model))"

definition ifd_entry ::
  "platform \<Rightarrow> string \<Rightarrow> endian \<Rightarrow> nat \<Rightarrow> string \<times> string \<Rightarrow> (string \<times> string) option" where
  "ifd_entry P tiff_data endian entry_offset st =
     (if entry_offset + 12 > length tiff_data then Some st
      else if length (slice tiff_data entry_offset (entry_offset + 12)) < 12 then Some st
      else
        (case (unpack_H endian (slice (slice tiff_data entry_offset (entry_offset + 12)) 0 2),
               unpack_H endian (slice (slice tiff_data entry_offset (entry_offset + 12)) 2 4),
               unpack_L endian (slice (slice tiff_data entry_offset (entry_offset + 12)) 4 8),
               unpack_L endian (slice (slice tiff_data entry_offset (entry_offset + 12)) 8 12)) of
           (Some tag_id, Some data_type, Some count, Some value_offset) \<Rightarrow>
             Some (ifd_field P tiff_data tag_id count value_offset st)
         | _ \<Rightarrow> None))"

fun ifd_loop ::
  "platform \<Rightarrow> string \<Rightarrow> endian \<Rightarrow> nat \<Rightarrow> nat list \<Rightarrow> string \<times> string \<Rightarrow> (string \<times> string) option" where
  "ifd_loop P tiff_data endian entry_start [] st = Some st"
| "ifd_loop P tiff_data endian entry_start (i # indices) st =
     (case ifd_entry P tiff_data endian (entry_start + i * 12) st of
        None \<Rightarrow> None
      | Some st' \<Rightarrow> ifd_loop P tiff_data endian entry_start indices st')"

definition parse_ifd :: "platform \<Rightarrow> string \<Rightarrow> nat \<Rightarrow> endian \<Rightarrow> string \<times> string" where
  "parse_ifd P tiff_data offset endian =
     (if offset + 2 > length tiff_data then (unknown_time, ''Unknown'')
      else
        (case unpack_H endian (slice tiff_data offset (offset + 2)) of
           None \<Rightarrow> (unknown_time, ''Unknown'')
         | Some num_entries \<Rightarrow>
             (case ifd_loop P tiff_data endian (offset + 2) [0..<num_entries]
                     (unknown_time, ''Unknown'') of
                None \<Rightarrow> (unknown_time, ''Unknown'')
              | Some st \<Rightarrow> st)))"

definition parse_tiff_data :: "platform \<Rightarrow> string \<Rightarrow> string \<times> string" where
  "parse_tiff_data P tiff_data =
     (if length tiff_data < 8 then (unknown_time, ''Unknown'')
      else
        (case (if take 2 tiff_data = ''II'' then Some Little
               else if take 2 tiff_data = ''MM'' then Some Big else None) of
           None \<Rightarrow> (unknown_time, ''Unknown'')
         | Some endian \<Rightarrow>
             (case unpack_H endian (slice tiff_data 2 4) of
                None \<Rightarrow> (unknown_time, ''Unknown'')
              | Some tiff_id \<Rightarrow>
                  if tiff_id \<noteq> 42 then (unknown_time, ''Unknown'')
                  else
                    (case unpack_L endian (slice tiff_data 4 8) of
                       None \<Rightarrow> (unknown_time, ''Unknown'')
                     | Some ifd_offset \<Rightarrow> parse_ifd P tiff_data ifd_offset endian))))"

text \<open>
  \<open>walk_segments\<close> is the \<^verbatim>\<open>while True\<close> loop of \<open>parse_raw_exif\<close> on the bytes that
  remain after the file position. For a declared length of 1, \<open>f.read(-1)\<close> reads to
  the end of the file; for 0, \<open>f.read(-2)\<close> raises; \<open>f.seek\<close> may move back into the
  length field or past the end. Every exception ends in the handler that returns the
  unknown pair. The argument of \<open>parse_raw_exif\<close> is what
  \<^verbatim>\<open>open(filepath, 'rb')\<close> gives: an exception or the bytes of the file.
\<close>

definition other_app_markers :: string where
  "other_app_markers = [CHR 0xE0, CHR 0xE2, CHR 0xE3, CHR 0xE4, CHR 0xE5, CHR 0xE6, CHR 0xE7,
     CHR 0xE8, CHR 0xE9, CHR 0xEA, CHR 0xEB, CHR 0xEC, CHR 0xED, CHR 0xEE, CHR 0xEF]"

definition exif_signature :: string where
  "exif_signature = [CHR ''E'', CHR ''x'', CHR ''i'', CHR ''f'', CHR 0x00, CHR 0x00]"

function walk_segments :: "platform \<Rightarrow> string \<Rightarrow> string \<times> string" where
  "walk_segments P f =
     (case f of
        m0 # m1 # rest \<Rightarrow>
          if m0 \<noteq> CHR 0xFF then (unknown_time, ''Unknown'')
          else if m1 = CHR 0xE1 then
            (case unpack_H Big (take 2 rest) of
               None \<Rightarrow> (unknown_time, ''Unknown'')
             | Some length_field \<Rightarrow>
                 if length_field = 0 then (unknown_time, ''Unknown'')
                 else if take 6 (if length_field = 1 then drop 2 rest
                                 else take (length_field - 2) (drop 2 rest)) = exif_signature
                 then parse_tiff_data P
                        (drop 6 (if length_field = 1 then drop 2 rest
                                 else take (length_field - 2) (drop 2 rest)))
                 else walk_segments P (if length_field = 1 then [] else drop length_field rest))
          else if m1 \<in> set other_app_markers then
            (case unpack_H Big (take 2 rest) of
               None \<Rightarrow> (unknown_time, ''Unknown'')
             | Some length_field \<Rightarrow> walk_segments P (drop length_field rest))
          else (unknown_time, ''Unknown'')
      | _ \<Rightarrow> (unknown_time, ''Unknown''))"
  by pat_completeness auto

termination
  by (relation "measure (\<lambda>(P, f). length f)") auto

definition parse_raw_exif :: "platform \<Rightarrow> py_exception + string \<Rightarrow> string \<times> string" where
  "parse_raw_exif P opened =
     (case opened of
        Inl e \<Rightarrow> (unknown_time, ''Unknown'')
      | Inr content \<Rightarrow>
          if take 2 content \<noteq> [CHR 0xFF, CHR 0xD8] then (unknown_time, ''Unknown'')
          else walk_segments P (drop 2 content))"

subsection \<open>get_advanced_exif_data\<close>

text \<open>
  \<open>photo_file\<close> is what the decoding library answers for one path:
  \<^verbatim>\<open>Image.open(filepath).getexif()\<close>, \<^verbatim>\<open>image._getexif()\<close> and \<^verbatim>\<open>image._exif\<close>
  (\<open>None\<close> when the attribute is missing or empty), each an exception or a value, and
  the opened file; \<open>unexpected_fault\<close> is an exception raised by a statement of the loop
  body of \<open>process_files\<close> outside \<open>get_advanced_exif_data\<close> (a \<open>MemoryError\<close>, for
  instance), \<open>None\<close> in a normal run. \<open>method1\<close> to \<open>method4\<close> are the four \<open>try\<close>
  blocks: \<open>None\<close> when the block raised or had no data, otherwise the pair it computed. \<open>accepted\<close> is the
  test \<^verbatim>\<open>if date_time and date_time != unknown\<close> that lets a block return. No statement
  of \<open>get_advanced_exif_data\<close> outside the four blocks calls the library, and the handler
  of its outer \<open>try\<close> is not entered.
\<close>

record photo_file =
  pil_getexif :: "py_exception + exifdata"
  pil_legacy_getexif :: "py_exception + exifdata option"
  pil_exif_attr :: "py_exception + exifdata option"
  opened :: "py_exception + string"
  unexpected_fault :: "py_exception option"

definition no_exif_info :: string where
  "no_exif_info = [CHR 0xE6, CHR 0x97, CHR 0xA0] @ ''EXIF''
                  @ [CHR 0xE4, CHR 0xBF, CHR 0xA1, CHR 0xE6, CHR 0x81, CHR 0xAF]"

definition error_prefix :: string where
  "error_prefix = [CHR 0xE9, CHR 0x94, CHR 0x99, CHR 0xE8, CHR 0xAF, CHR 0xAF, CHR '':'']"

definition no_time_info :: string where
  "no_time_info = [CHR 0xE6, CHR 0x97, CHR 0xA0, CHR 0xE6, CHR 0x97, CHR 0xB6, CHR 0xE9, CHR 0x97,
                   CHR 0xB4, CHR 0xE4, CHR 0xBF, CHR 0xA1, CHR 0xE6, CHR 0x81, CHR 0xAF]"

definition no_camera_info :: string where
  "no_camera_info = [CHR 0xE6, CHR 0x97, CHR 0xA0, CHR 0xE7, CHR 0x9B, CHR 0xB8, CHR 0xE6, CHR 0x9C,
                     CHR 0xBA, CHR 0xE4, CHR 0xBF, CHR 0xA1, CHR 0xE6, CHR 0x81, CHR 0xAF]"

definition method1 :: "platform \<Rightarrow> tag_table \<Rightarrow> photo_file \<Rightarrow> (string \<times> string) option" where
  "method1 P TAGS f =
     (case pil_getexif f of
        Inl e \<Rightarrow> None
      | Inr exifdata \<Rightarrow> if exifdata \<noteq> [] then Some (parse_exif_with_pil P TAGS exifdata) else None)"

definition method2 :: "platform \<Rightarrow> tag_table \<Rightarrow> photo_file \<Rightarrow> (string \<times> string) option" where
  "method2 P TAGS f =
     (case pil_legacy_getexif f of
        Inl e \<Rightarrow> None
      | Inr None \<Rightarrow> None
      | Inr (Some exifdata) \<Rightarrow>
          if exifdata \<noteq> [] then Some (parse_exif_with_pil P TAGS exifdata) else None)"

definition method3 :: "platform \<Rightarrow> tag_table \<Rightarrow> photo_file \<Rightarrow> (string \<times> string) option" where
  "method3 P TAGS f =
     (case pil_exif_attr f of
        Inl e \<Rightarrow> None
      | Inr None \<Rightarrow> None
      | Inr (Some exifdata) \<Rightarrow>
          if exifdata \<noteq> [] then Some (parse_exif_with_pil P TAGS exifdata) else None)"

definition method4 :: "platform \<Rightarrow> photo_file \<Rightarrow> (string \<times> string) option" where
  "method4 P f = Some (parse_raw_exif P (opened f))"

fun accepted :: "(string \<times> string) option \<Rightarrow> (string \<times> string) option" where
  "accepted None = None"
| "accepted (Some (date_time, camera_model)) =
     (if date_time \<noteq> [] \<and> date_time \<noteq> unknown_time then Some (date_time, camera_model)
      else None)"

definition get_advanced_exif_data ::
  "platform \<Rightarrow> tag_table \<Rightarrow> photo_file \<Rightarrow> string \<times> string \<times> string option" where
  "get_advanced_exif_data P TAGS f =
     (case accepted (method1 P TAGS f) of
        Some (date_time, camera_model) \<Rightarrow> (date_time, camera_model, None)
      | None \<Rightarrow>
     (case accepted (method2 P TAGS f) of
        Some (date_time, camera_model) \<Rightarrow> (date_time, camera_model, None)
      | None \<Rightarrow>
     (case accepted (method3 P TAGS f) of
        Some (date_time, camera_model) \<Rightarrow> (date_time, camera_model, None)
      | None \<Rightarrow>
     (case accepted (method4 P f) of
        Some (date_time, camera_model) \<Rightarrow> (date_time, camera_model, None)
      | None \<Rightarrow> (unknown_time, ''Unknown'', Some no_exif_info)))))"

subsection \<open>process_files\<close>

text \<open>
  \<open>process_body\<close> is the body of the \<open>try\<close> of one iteration, which raises when the
  file has an \<open>unexpected_fault\<close>, and \<open>process_file\<close> adds its handler.
  \<open>process_loop\<close> is the loop over \<open>enumerate(self.file_paths)\<close>: it returns the list handed to the \<open>finished\<close> signal and the \<open>progress\<close> events.
  \<open>world\<close> gives the \<open>photo_file\<close> of every path.
\<close>

type_synonym world = "string \<Rightarrow> photo_file"

definition process_body ::
  "platform \<Rightarrow> bool \<Rightarrow> tag_table \<Rightarrow> world \<Rightarrow> string \<Rightarrow> py_exception + scan_result" where
  "process_body P HEIC_SUPPORT TAGS world path =
     (let old = os_path_basename path;
          ext = snd (os_path_splitext old)
      in case unexpected_fault (world path) of Some e \<Rightarrow> Inl e | None \<Rightarrow>
         if lower ext \<in> set [''.heic'', ''.heif''] \<and> \<not> HEIC_SUPPORT
         then Inr (Unreadable path old None None NO_HEIC_SUPPORT (''NOHEIC_'' @ old))
         else
           (case get_advanced_exif_data P TAGS (world path) of
              (date_time, camera_model, error_msg) \<Rightarrow>
                if (case error_msg of None \<Rightarrow> False
                    | Some msg \<Rightarrow> msg \<noteq> [] \<and> contains error_prefix msg)
                then Inr (Unreadable path old None None EXIF_ERROR (''ERROR_'' @ old))
                else if date_time = unknown_time
                then Inr (Unreadable path old (Some no_time_info) (Some no_camera_info)
                            NO_EXIF_TIME (''NOEXIF_'' @ old))
                else Inr (Renamable path old date_time camera_model
                            (date_time @ ''_'' @ camera_model) ext)))"

definition process_file :: "platform \<Rightarrow> bool \<Rightarrow> tag_table \<Rightarrow> world \<Rightarrow> string \<Rightarrow> scan_result" where
  "process_file P HEIC_SUPPORT TAGS world path =
     (case process_body P HEIC_SUPPORT TAGS world path of
        Inr result \<Rightarrow> result
      | Inl e \<Rightarrow>
          Unreadable path (os_path_basename path) None None PROCESS_ERROR
            (''ERROR_'' @ os_path_basename path))"

fun process_loop ::
  "platform \<Rightarrow> bool \<Rightarrow> tag_table \<Rightarrow> world \<Rightarrow> nat \<Rightarrow> nat \<Rightarrow> string list
   \<Rightarrow> scan_result list \<times> (nat \<times> nat) list" where
  "process_loop P HEIC_SUPPORT TAGS world total_files i [] = ([], [])"
| "process_loop P HEIC_SUPPORT TAGS world total_files i (path # paths) =
     (case process_loop P HEIC_SUPPORT TAGS world total_files (i + 1) paths of
        (results, progress) \<Rightarrow>
          (process_file P HEIC_SUPPORT TAGS world path # results,
           (i + 1, total_files) # progress))"

definition process_files ::
  "platform \<Rightarrow> bool \<Rightarrow> tag_table \<Rightarrow> world \<Rightarrow> string list \<Rightarrow> scan_result list \<times> (nat \<times> nat) list" where
  "process_files P HEIC_SUPPORT TAGS world file_paths =
     process_loop P HEIC_SUPPORT TAGS world (length file_paths) 0 file_paths"

fun result_filepath :: "scan_result \<Rightarrow> string" where
  "result_filepath (Renamable path old dt cm b ext) = path"
| "result_filepath (Unreadable path old dt cm err new_name) = path"

section \<open>RenameWorker\<close>

text \<open>
  A task dictionary has the keys \<open>filepath\<close>, \<open>new_path\<close>, \<open>base_name\<close> and \<open>extension\<close>.
  \<open>suffixed base_name counter extension\<close> is the f-string
  \<^verbatim>\<open>f"{base_name}_{counter}{extension}"\<close>. \<open>free_path_loop\<close> is the \<open>while\<close> loop that
  moves \<open>new_path\<close> to the next suffixed name as long as the path exists; it has no
  bound of its own, so it is a partial function and \<open>None\<close> stands for a loop that
  never returns.

  The handler of a failed rename counts the failure and prints \<open>failure_message\<close>: the
  literal \<open>rename_failed\<close>, the path and the text of the exception, for which the model
  has the name of the exception's class. \<open>print\<close> raises
  \<open>UnicodeEncodeError\<close> when the encoding of the standard output cannot encode the text,
  which \<open>stdout_accepts\<close> decides; that exception is raised inside the handler and leaves
  the loop. \<open>rename_loop\<close> carries \<open>success_count\<close>, \<open>error_count\<close>, the \<open>progress\<close> events
  emitted so far and the file system. A run is \<open>Finished\<close> with the two counts of the
  \<open>finished\<close> signal, the progress events and the file system, or \<open>Aborted\<close> by an
  exception with the events emitted and the file system reached by then.
\<close>

record rename_task =
  task_filepath :: string
  task_new_path :: string
  task_base_name :: string
  task_extension :: string

definition suffixed :: "string \<Rightarrow> nat \<Rightarrow> string \<Rightarrow> string" where
  "suffixed base_name counter extension = base_name @ ''_'' @ str_nat counter @ extension"

partial_function (option) free_path_loop ::
  "filesystem \<Rightarrow> rename_task \<Rightarrow> string \<Rightarrow> nat \<Rightarrow> string option" where
  "free_path_loop fs task new_path counter =
     (if os_path_exists fs new_path
      then free_path_loop fs task
             (os_path_join (os_path_dirname (task_filepath task))
                (suffixed (task_base_name task) counter (task_extension task)))
             (counter + 1)
      else Some new_path)"

declare free_path_loop.simps [code]

definition rename_failed :: string where
  "rename_failed = [CHR 0xE9, CHR 0x87, CHR 0x8D, CHR 0xE5, CHR 0x91, CHR 0xBD, CHR 0xE5, CHR 0x90,
                    CHR 0x8D, CHR 0xE5, CHR 0xA4, CHR 0xB1, CHR 0xE8, CHR 0xB4, CHR 0xA5]"

fun failure_message :: "string \<Rightarrow> py_exception \<Rightarrow> string" where
  "failure_message path (PyException msg) = rename_failed @ '' '' @ path @ '': '' @ msg"

datatype rename_run =
    Finished nat nat "(nat \<times> nat) list" filesystem
  | Aborted py_exception "(nat \<times> nat) list" filesystem

fun rename_loop ::
  "(string \<Rightarrow> string \<Rightarrow> bool) \<Rightarrow> (string \<Rightarrow> bool) \<Rightarrow> nat \<Rightarrow> nat \<Rightarrow> rename_task list
   \<Rightarrow> nat \<times> nat \<times> (nat \<times> nat) list \<times> filesystem \<Rightarrow> rename_run option" where
  "rename_loop refused stdout_accepts total_files i [] (success_count, error_count, progress, fs) =
     Some (Finished success_count error_count progress fs)"
| "rename_loop refused stdout_accepts total_files i (task # tasks)
     (success_count, error_count, progress, fs) =
     (case free_path_loop fs task (task_new_path task) 1 of
        None \<Rightarrow> None
      | Some new_path \<Rightarrow>
          (case os_rename refused fs (task_filepath task) new_path of
             Inr fs' \<Rightarrow>
               rename_loop refused stdout_accepts total_files (i + 1) tasks
                 (success_count + 1, error_count, progress @ [(i + 1, total_files)], fs')
           | Inl e \<Rightarrow>
               if stdout_accepts (failure_message (task_filepath task) e)
               then rename_loop refused stdout_accepts total_files (i + 1) tasks
                      (success_count, error_count + 1, progress @ [(i + 1, total_files)], fs)
               else Some (Aborted (PyException ''UnicodeEncodeError'') progress fs)))"

definition rename_files ::
  "(string \<Rightarrow> string \<Rightarrow> bool) \<Rightarrow> (string \<Rightarrow> bool) \<Rightarrow> rename_task list \<Rightarrow> filesystem
   \<Rightarrow> rename_run option" where
  "rename_files refused stdout_accepts rename_tasks fs =
     rename_loop refused stdout_accepts (length rename_tasks) 0 rename_tasks (0, 0, [], fs)"

section \<open>PhotoRenamerApp\<close>

subsection \<open>Planning unique file names\<close>

text \<open>
  \<open>generate_unique_filename_preview\<close>: the first candidate is
  \<^verbatim>\<open>f"{base_name}{extension}"\<close>; when it is in \<open>existing_names\<close> the \<^verbatim>\<open>while True\<close> loop
  counts up from 1 until a candidate is not in the set.
  \<open>generate_unique_filename_actual\<close>: the same counting, but a candidate is also
  refused when \<open>os.path.exists\<close> holds of its path in \<open>folder_path\<close>.
\<close>

partial_function (option) preview_loop ::
  "string \<Rightarrow> string \<Rightarrow> string set \<Rightarrow> nat \<Rightarrow> string option" where
  "preview_loop base_name extension existing_names counter =
     (if suffixed base_name counter extension \<notin> existing_names
      then Some (suffixed base_name counter extension)
      else preview_loop base_name extension existing_names (counter + 1))"

declare preview_loop.simps [code]

definition generate_unique_filename_preview ::
  "string \<Rightarrow> string \<Rightarrow> string set \<Rightarrow> string option" where
  "generate_unique_filename_preview base_name extension existing_names =
     (if base_name @ extension \<notin> existing_names then Some (base_name @ extension)
      else preview_loop base_name extension existing_names 1)"

partial_function (option) actual_loop ::
  "string \<Rightarrow> string \<Rightarrow> string \<Rightarrow> string set \<Rightarrow> filesystem \<Rightarrow> nat \<Rightarrow> string option" where
  "actual_loop base_name extension folder_path used_names fs counter =
     (if suffixed base_name counter extension \<notin> used_names
         \<and> \<not> os_path_exists fs (os_path_join folder_path (suffixed base_name counter extension))
      then Some (suffixed base_name counter extension)
      else actual_loop base_name extension folder_path used_names fs (counter + 1))"

declare actual_loop.simps [code]

definition generate_unique_filename_actual ::
  "string \<Rightarrow> string \<Rightarrow> string \<Rightarrow> string set \<Rightarrow> filesystem \<Rightarrow> string option" where
  "generate_unique_filename_actual base_name extension folder_path used_names fs =
     (if base_name @ extension \<in> used_names
         \<or> os_path_exists fs (os_path_join folder_path (base_name @ extension))
      then actual_loop base_name extension folder_path used_names fs 1
      else Some (base_name @ extension))"

text \<open>
  \<open>update_preview_table\<close> fills one table row per result: the old name, the time, the
  camera model and the new name, and for a failed result a background colour. It starts
  from an empty \<open>used_names\<close> set and adds every name it plans before planning the next.
  \<open>read_failed\<close> is the cell text of a failed result. \<open>planned_names\<close> are the names
  planned for the renamable files: the fourth cell of the uncoloured rows.
\<close>

datatype colour = Red | Yellow

definition read_failed :: string where
  "read_failed = [CHR 0xE8, CHR 0xAF, CHR 0xBB, CHR 0xE5, CHR 0x8F, CHR 0x96,
                  CHR 0xE5, CHR 0xA4, CHR 0xB1, CHR 0xE8, CHR 0xB4, CHR 0xA5]"

type_synonym table_row = "string \<times> string \<times> string \<times> string \<times> colour option"

fun table_rows :: "scan_result list \<Rightarrow> string set \<Rightarrow> table_row list option" where
  "table_rows [] used_names = Some []"
| "table_rows (Renamable fp old dt cm base_name ext # results) used_names =
     (case generate_unique_filename_preview base_name ext used_names of
        None \<Rightarrow> None
      | Some new_name \<Rightarrow>
          (case table_rows results (insert new_name used_names) of
             None \<Rightarrow> None
           | Some rows \<Rightarrow> Some ((old, dt, cm, new_name, None) # rows)))"
| "table_rows (Unreadable fp old dt cm err new_name # results) used_names =
     (case table_rows results used_names of
        None \<Rightarrow> None
      | Some rows \<Rightarrow>
          Some ((old, read_failed, read_failed, new_name,
                 Some (if err = NO_HEIC_SUPPORT then Red
                       else if err = NO_EXIF_TIME then Yellow else Red)) # rows))"

definition update_preview_table :: "scan_result list \<Rightarrow> table_row list option" where
  "update_preview_table results = table_rows results {}"

definition planned_names :: "table_row list \<Rightarrow> string list" where
  "planned_names rows = [new_name. (old, dt, cm, new_name, bg) \<leftarrow> rows, bg = None]"

subsection \<open>The orchestrator\<close>

text \<open>
  The state of the window that the handlers read and write. A handler that starts a
  worker thread returns what it started. \<open>app_rename_files\<close> is
  \<open>PhotoRenamerApp.rename_files\<close> with the answer of the confirmation dialog;
  \<open>plan_rename_tasks\<close> is its loop over the preview results. The preview that
  \<open>select_folder\<close> schedules on a timer is the later event \<open>PreviewNames\<close>, and the
  signals of the workers are the events \<open>PreviewFinished\<close> and \<open>RenameFinished\<close>.
  \<open>handle\<close> dispatches one
  event to its handler and \<open>run\<close> a sequence of events, each with the file system of
  its moment, collecting the workers started.
\<close>

record app =
  selected_files :: "string list"
  preview_results :: "scan_result list"
  rename_completed :: bool
  rename_btn_enabled :: bool
  preview_btn_enabled :: bool

definition init_app :: app where
  "init_app = \<lparr>selected_files = [], preview_results = [], rename_completed = False,
               rename_btn_enabled = False, preview_btn_enabled = True\<rparr>"

definition reset_all :: "app \<Rightarrow> app" where
  "reset_all s = s\<lparr>selected_files := [], preview_results := [], rename_btn_enabled := False,
                    preview_btn_enabled := True, rename_completed := False\<rparr>"

definition image_extensions :: "string set" where
  "image_extensions = {''.jpg'', ''.jpeg'', ''.png'', ''.gif'', ''.bmp'', ''.tiff'', ''.webp'',
     ''.cr2'', ''.nef'', ''.arw'', ''.dng'', ''.orf'', ''.rw2'', ''.pef'', ''.heic'', ''.heif''}"

definition select_folder :: "app \<Rightarrow> string \<Rightarrow> string list \<Rightarrow> app" where
  "select_folder s folder_path listing =
     (if folder_path \<noteq> [] then
        (reset_all s)\<lparr>selected_files :=
           sort [os_path_join folder_path filename. filename \<leftarrow> listing,
                 lower (snd (os_path_splitext filename)) \<in> image_extensions]\<rparr>
      else s)"

datatype started = ExifWorker "string list" | RenameWorker "rename_task list"

definition preview_names :: "app \<Rightarrow> app \<times> started option" where
  "preview_names s =
     (if selected_files s = [] then (s, None)
      else (s\<lparr>preview_btn_enabled := False\<rparr>, Some (ExifWorker (selected_files s))))"

fun is_renamable :: "scan_result \<Rightarrow> bool" where
  "is_renamable (Renamable path old dt cm b ext) = True"
| "is_renamable (Unreadable path old dt cm err new_name) = False"

definition on_preview_finished :: "app \<Rightarrow> scan_result list \<Rightarrow> app" where
  "on_preview_finished s results =
     (let s' = s\<lparr>preview_results := results, preview_btn_enabled := True\<rparr>
      in if \<not> rename_completed s'
         then s'\<lparr>rename_btn_enabled := (length (filter is_renamable results) > 0)\<rparr>
         else s')"

fun plan_rename_tasks ::
  "filesystem \<Rightarrow> scan_result list \<Rightarrow> string set \<Rightarrow> rename_task list option" where
  "plan_rename_tasks fs [] used_names = Some []"
| "plan_rename_tasks fs (Renamable path old dt cm base_name ext # results) used_names =
     (case generate_unique_filename_actual base_name ext (os_path_dirname path) used_names fs of
        None \<Rightarrow> None
      | Some new_name \<Rightarrow>
          (case plan_rename_tasks fs results (insert new_name used_names) of
             None \<Rightarrow> None
           | Some rename_tasks \<Rightarrow>
               Some (\<lparr>task_filepath = path,
                      task_new_path = os_path_join (os_path_dirname path) new_name,
                      task_base_name = base_name, task_extension = ext\<rparr> # rename_tasks)))"
| "plan_rename_tasks fs (Unreadable path old dt cm err new_name # results) used_names =
     plan_rename_tasks fs results used_names"

definition app_rename_files :: "app \<Rightarrow> filesystem \<Rightarrow> bool \<Rightarrow> (app \<times> started option) option" where
  "app_rename_files s fs reply_yes =
     (if rename_completed s then Some (s, None)
      else if preview_results s = [] then Some (s, None)
      else
        (case plan_rename_tasks fs (preview_results s) {} of
           None \<Rightarrow> None
         | Some rename_tasks \<Rightarrow>
             if rename_tasks = [] then Some (s, None)
             else if \<not> reply_yes then Some (s, None)
             else Some (s\<lparr>rename_completed := True, rename_btn_enabled := False\<rparr>,
                        Some (RenameWorker rename_tasks))))"

definition on_rename_finished :: "app \<Rightarrow> nat \<Rightarrow> nat \<Rightarrow> app" where
  "on_rename_finished s success_count error_count = s\<lparr>rename_btn_enabled := False\<rparr>"

datatype event =
    SelectFolder string "string list"
  | ResetAll
  | PreviewNames
  | PreviewFinished "scan_result list"
  | RenameFiles bool
  | RenameFinished nat nat

fun handle :: "app \<Rightarrow> filesystem \<Rightarrow> event \<Rightarrow> (app \<times> started option) option" where
  "handle s fs (SelectFolder folder_path listing) = Some (select_folder s folder_path listing, None)"
| "handle s fs ResetAll = Some (reset_all s, None)"
| "handle s fs PreviewNames = Some (preview_names s)"
| "handle s fs (PreviewFinished results) = Some (on_preview_finished s results, None)"
| "handle s fs (RenameFiles reply_yes) = app_rename_files s fs reply_yes"
| "handle s fs (RenameFinished success_count error_count) =
     Some (on_rename_finished s success_count error_count, None)"

fun run :: "app \<Rightarrow> (filesystem \<times> event) list \<Rightarrow> (app \<times> started list) option" where
  "run s [] = Some (s, [])"
| "run s ((fs, ev) # evs) =
     (case handle s fs ev of
        None \<Rightarrow> None
      | Some (s', act) \<Rightarrow>
          (case run s' evs of
             None \<Rightarrow> None
           | Some (s'', acts) \<Rightarrow> Some (s'', (case act of None \<Rightarrow> [] | Some a \<Rightarrow> [a]) @ acts)))"

fun is_rename_start :: "started \<Rightarrow> bool" where
  "is_rename_start (RenameWorker rename_tasks) = True"
| "is_rename_start (ExifWorker paths) = False"

fun is_reselect :: "event \<Rightarrow> bool" where
  "is_reselect (SelectFolder folder_path listing) = (folder_path \<noteq> [])"
| "is_reselect ResetAll = True"
| "is_reselect _ = False"

section \<open>Reference definitions and example inputs\<close>

text \<open>
  \<open>first_parse\<close> is the result of the first format of a list, in order, that parses
  the text. \<open>is_canonical\<close> is the shape \<open>YYYYMMDD_HHMMSS\<close>: 15 characters, digits but for
  the underscore at index 8. \<open>directives\<close> lists the directives of a compiled format.
\<close>

definition first_parse :: "platform \<Rightarrow> string list \<Rightarrow> string \<Rightarrow> datetime option" where
  "first_parse P fmts s =
     (case List.find (\<lambda>fmt. strptime P s fmt \<noteq> None) fmts of
        None \<Rightarrow> None
      | Some fmt \<Rightarrow> strptime P s fmt)"

definition is_canonical :: "string \<Rightarrow> bool" where
  "is_canonical s =
     (length s = 15 \<and> list_all (\<lambda>c. c \<in> set digits) (take 8 s) \<and> s ! 8 = CHR ''_''
      \<and> list_all (\<lambda>c. c \<in> set digits) (drop 9 s))"

definition directives :: "fmt_item list \<Rightarrow> directive list" where
  "directives items = concat (map (\<lambda>item. case item of Directive d \<Rightarrow> [d] | _ \<Rightarrow> []) items)"

text \<open>
  \<open>usable_values\<close> lists, in the iteration order of the tag ids, the stripped values of
  the tags of one name that are neither empty nor the zero timestamp.
  \<open>priority_timestamp\<close> takes the first usable value of the first name that has one,
  the names in the order DateTimeOriginal, DateTime, DateTimeDigitized, CreateDate,
  ModifyDate. \<open>two_dates\<close> is a tag dictionary with a DateTime and a DateTimeOriginal.
\<close>

definition usable_values :: "platform \<Rightarrow> tag_table \<Rightarrow> exifdata \<Rightarrow> nat list \<Rightarrow> string \<Rightarrow> string list" where
  "usable_values P TAGS exifdata tag_ids field =
     [strip P (to_text (exif_get exifdata tag_id)).
        tag_id \<leftarrow> tag_ids,
        TAGS tag_id = Some field,
        strip P (to_text (exif_get exifdata tag_id)) \<noteq> []
        \<and> strip P (to_text (exif_get exifdata tag_id)) \<noteq> zero_time]"

definition priority_timestamp :: "platform \<Rightarrow> tag_table \<Rightarrow> exifdata \<Rightarrow> string option" where
  "priority_timestamp P TAGS exifdata =
     (case concat (map (usable_values P TAGS exifdata (map fst exifdata))
                     [''DateTimeOriginal'', ''DateTime'', ''DateTimeDigitized'', ''CreateDate'',
                      ''ModifyDate'']) of
        [] \<Rightarrow> None
      | v # _ \<Rightarrow> Some v)"

definition two_dates :: exifdata where
  "two_dates = [(306, Str ''2021:05:01 10:00:00''), (36867, Str ''2021:04:30 09:00:00'')]"

text \<open>
  \<open>first_usable\<close> takes the first stage result, in order, whose time is usable.
  \<open>expected_outcome\<close> is the outcome record of one file by the kind of its failure: an
  unexpected fault, an unsupported container, no usable time in any stage, or none.
  \<open>well_tagged\<close> holds of a failure record and of a success record whose time is
  usable.
\<close>

fun first_usable :: "(string \<times> string) option list \<Rightarrow> (string \<times> string) option" where
  "first_usable [] = None"
| "first_usable (None # rs) = first_usable rs"
| "first_usable (Some (date_time, camera_model) # rs) =
     (if date_time \<noteq> [] \<and> date_time \<noteq> unknown_time then Some (date_time, camera_model)
      else first_usable rs)"

definition expected_outcome ::
  "platform \<Rightarrow> bool \<Rightarrow> tag_table \<Rightarrow> world \<Rightarrow> string \<Rightarrow> scan_result" where
  "expected_outcome P HEIC_SUPPORT TAGS world path =
     (case unexpected_fault (world path) of
        Some e \<Rightarrow>
          Unreadable path (os_path_basename path) None None PROCESS_ERROR
            (''ERROR_'' @ os_path_basename path)
      | None \<Rightarrow>
          if lower (snd (os_path_splitext (os_path_basename path))) \<in> {''.heic'', ''.heif''}
             \<and> \<not> HEIC_SUPPORT
          then Unreadable path (os_path_basename path) None None NO_HEIC_SUPPORT
                 (''NOHEIC_'' @ os_path_basename path)
          else
            (case first_usable [method1 P TAGS (world path), method2 P TAGS (world path),
                                method3 P TAGS (world path), method4 P (world path)] of
               None \<Rightarrow>
                 Unreadable path (os_path_basename path) (Some no_time_info)
                   (Some no_camera_info) NO_EXIF_TIME (''NOEXIF_'' @ os_path_basename path)
             | Some (date_time, camera_model) \<Rightarrow>
                 Renamable path (os_path_basename path) date_time camera_model
                   (date_time @ ''_'' @ camera_model)
                   (snd (os_path_splitext (os_path_basename path)))))"

fun well_tagged :: "scan_result \<Rightarrow> bool" where
  "well_tagged (Renamable path old date_time camera_model base_name ext) =
     (date_time \<noteq> [] \<and> date_time \<noteq> unknown_time)"
| "well_tagged (Unreadable path old date_time camera_model err new_name) = True"

text \<open>
  \<open>field_timestamp\<close> is the timestamp an IFD entry yields: the entry has one of the
  three timestamp tag ids, its value of 5 to 19 bytes lies inside the block at the
  entry's offset, and the value is non-empty, not the zero timestamp and normalizable.
  \<open>stored_timestamps\<close> lists these timestamps in the stored order of the entries.
\<close>

definition field_timestamp :: "platform \<Rightarrow> string \<Rightarrow> nat \<Rightarrow> nat \<Rightarrow> nat \<Rightarrow> string option" where
  "field_timestamp P tiff_data tag_id count value_offset =
     (if tag_id \<in> set [306, 36867, 36868] \<and> 4 < count \<and> count < 20
         \<and> value_offset + count \<le> length tiff_data
      then
        (let date_str = strip_nul (decode_utf8_ignore
                                     (slice tiff_data value_offset (value_offset + count)))
         in if date_str \<noteq> [] \<and> date_str \<noteq> zero_time
               \<and> format_datetime_string P date_str \<noteq> unknown_time
            then Some (format_datetime_string P date_str) else None)
      else None)"

definition entry_timestamp :: "platform \<Rightarrow> string \<Rightarrow> endian \<Rightarrow> nat \<Rightarrow> string option" where
  "entry_timestamp P tiff_data endian entry_offset =
     (if entry_offset + 12 \<le> length tiff_data
      then field_timestamp P tiff_data
             (unpack_uint endian (slice tiff_data entry_offset (entry_offset + 2)))
             (unpack_uint endian (slice tiff_data (entry_offset + 4) (entry_offset + 8)))
             (unpack_uint endian (slice tiff_data (entry_offset + 8) (entry_offset + 12)))
      else None)"

definition stored_timestamps :: "platform \<Rightarrow> string \<Rightarrow> nat \<Rightarrow> endian \<Rightarrow> string list" where
  "stored_timestamps P tiff_data offset endian =
     List.map_filter (\<lambda>i. entry_timestamp P tiff_data endian (offset + 2 + i * 12))
       [0..<unpack_uint endian (slice tiff_data offset (offset + 2))]"

text \<open>
  A scan result with its rename plan, the application state after that rename was
  started, and a session of events without a reset or a folder selection; three rename
  plans; a standard output that encodes ASCII only; a file whose first stage finds a
  camera model and a time that does not normalize; a file no stage reads anything from,
  and a folder of four files.
\<close>

definition one_photo :: "scan_result list" where
  "one_photo = [Renamable ''/p/a.jpg'' ''a.jpg'' ''20210430_090000'' ''Canon''
                  ''20210430_090000_Canon'' ''.jpg'']"

definition one_plan :: "rename_task list" where
  "one_plan = [\<lparr>task_filepath = ''/p/a.jpg'',
                task_new_path = ''/p/20210430_090000_Canon.jpg'',
                task_base_name = ''20210430_090000_Canon'',
                task_extension = ''.jpg''\<rparr>]"

definition done_app :: app where
  "done_app = \<lparr>selected_files = [], preview_results = one_photo,
               rename_completed = True, rename_btn_enabled = False, preview_btn_enabled = True\<rparr>"

definition session :: "(filesystem \<times> event) list" where
  "session =
     [({''/p/a.jpg''}, PreviewFinished one_photo),
      ({''/p/a.jpg''}, RenameFiles True),
      ({''/p/20210430_090000_Canon.jpg''}, RenameFinished 1 0),
      ({''/p/20210430_090000_Canon.jpg''}, RenameFiles True),
      ({''/p/20210430_090000_Canon.jpg''}, SelectFolder [] []),
      ({''/p/20210430_090000_Canon.jpg''}, PreviewFinished one_photo),
      ({''/p/20210430_090000_Canon.jpg''}, RenameFiles True)]"

definition three_plans :: "rename_task list" where
  "three_plans =
     [\<lparr>task_filepath = ''/p/a.jpg'', task_new_path = ''/p/t_c.jpg'', task_base_name = ''t_c'',
       task_extension = ''.jpg''\<rparr>,
      \<lparr>task_filepath = ''/p/b.jpg'', task_new_path = ''/p/t_c_1.jpg'', task_base_name = ''t_c'',
       task_extension = ''.jpg''\<rparr>,
      \<lparr>task_filepath = ''/p/c.jpg'', task_new_path = ''/p/t_c_2.jpg'', task_base_name = ''t_c'',
       task_extension = ''.jpg''\<rparr>]"

definition ascii_stdout :: "string \<Rightarrow> bool" where
  "ascii_stdout msg = list_all (\<lambda>c. (of_char c :: nat) < 128) msg"

definition canon_garbage :: photo_file where
  "canon_garbage =
     \<lparr>pil_getexif = Inr [(272, Str ''Canon''), (306, Str ''garbage'')],
      pil_legacy_getexif = Inr None,
      pil_exif_attr = Inr None,
      opened = Inl (PyException ''FileNotFoundError''),
      unexpected_fault = None\<rparr>"

definition no_data :: photo_file where
  "no_data = \<lparr>pil_getexif = Inl (PyException ''UnidentifiedImageError''),
              pil_legacy_getexif = Inl (PyException ''UnidentifiedImageError''),
              pil_exif_attr = Inl (PyException ''UnidentifiedImageError''),
              opened = Inr [],
              unexpected_fault = None\<rparr>"

definition demo_world :: world where
  "demo_world path =
     (if path = ''/p/a.jpg'' then no_data\<lparr>pil_getexif := Inr two_dates\<rparr>
      else if path = ''/p/c.png'' then no_data\<lparr>unexpected_fault := Some (PyException ''MemoryError'')\<rparr>
      else no_data)"

text \<open>
  Little-endian TIFF blocks whose IFD at offset 8 has two entries. In
  \<open>tiff_inline_model\<close>: DateTime (306) of 19 bytes at offset 34, and Model (272) of 4
  bytes stored inline. In \<open>tiff_offset_model\<close>: the same with the Model of 5 bytes
  stored at offset 53. In \<open>tiff_two_dates\<close>: DateTimeOriginal (36867) first, then
  DateTime (306), both of 19 bytes.
\<close>

definition tiff_inline_model :: string where
  "tiff_inline_model =
     ''II'' @ [CHR 0x2A, CHR 0x00, CHR 0x08, CHR 0x00, CHR 0x00, CHR 0x00]
     @ [CHR 0x02, CHR 0x00]
     @ [CHR 0x32, CHR 0x01, CHR 0x02, CHR 0x00, CHR 0x13, CHR 0x00, CHR 0x00, CHR 0x00,
        CHR 0x22, CHR 0x00, CHR 0x00, CHR 0x00]
     @ [CHR 0x10, CHR 0x01, CHR 0x02, CHR 0x00, CHR 0x04, CHR 0x00, CHR 0x00, CHR 0x00,
        CHR ''X'', CHR ''1'', CHR ''0'', CHR 0x00]
     @ ''2021:05:01 10:00:00''"

definition tiff_offset_model :: string where
  "tiff_offset_model =
     ''II'' @ [CHR 0x2A, CHR 0x00, CHR 0x08, CHR 0x00, CHR 0x00, CHR 0x00]
     @ [CHR 0x02, CHR 0x00]
     @ [CHR 0x32, CHR 0x01, CHR 0x02, CHR 0x00, CHR 0x13, CHR 0x00, CHR 0x00, CHR 0x00,
        CHR 0x22, CHR 0x00, CHR 0x00, CHR 0x00]
     @ [CHR 0x10, CHR 0x01, CHR 0x02, CHR 0x00, CHR 0x05, CHR 0x00, CHR 0x00, CHR 0x00,
        CHR 0x35, CHR 0x00, CHR 0x00, CHR 0x00]
     @ ''2021:05:01 10:00:00'' @ [CHR ''X'', CHR ''1'', CHR ''0'', CHR 0x00, CHR 0x00]"

definition tiff_two_dates :: string where
  "tiff_two_dates =
     ''II'' @ [CHR 0x2A, CHR 0x00, CHR 0x08, CHR 0x00, CHR 0x00, CHR 0x00]
     @ [CHR 0x02, CHR 0x00]
     @ [CHR 0x03, CHR 0x90, CHR 0x02, CHR 0x00, CHR 0x13, CHR 0x00, CHR 0x00, CHR 0x00,
        CHR 0x22, CHR 0x00, CHR 0x00, CHR 0x00]
     @ [CHR 0x32, CHR 0x01, CHR 0x02, CHR 0x00, CHR 0x13, CHR 0x00, CHR 0x00, CHR 0x00,
        CHR 0x35, CHR 0x00, CHR 0x00, CHR 0x00]
     @ ''2021:04:30 09:00:00'' @ ''2021:05:01 10:00:00''"

section \<open>Properties\<close>

subsection \<open>Evaluating the definitions\<close>

lemma replicate_numeral_unfold: "replicate (numeral k) x = x # replicate (pred_numeral k) x"
  by (simp add: numeral_eq_Suc)

lemmas normalize_eval = replicate_numeral_unfold format_datetime_string_def formats_def
  strptime_def strip_def is_space_def is_whitespace_def decimal_value_def int_of_text_def
  byte_in_def ascii_lower_def directive_regex_def digits_def group_int_def fraction_def
  datetime_new_def days_in_month_def is_leap_def zfill_def strftime_def str_nat.simps
  digit_char_def digit_val_def unknown_time_def List.map_filter_def

lemmas ifd_eval = parse_ifd_def ifd_entry_def ifd_field_def slice_def unpack_H_def unpack_L_def
  unpack_uint_def strip_nul_def remove_spaces_def zero_time_def byte_in_def

subsection \<open>Decimal counters\<close>

lemma digit_val_digit_char: "d < 10 \<Longrightarrow> digit_val (digit_char d) = d"
proof -
  assume "d < 10"
  then have "d = 0 \<or> d = 1 \<or> d = 2 \<or> d = 3 \<or> d = 4 \<or> d = 5 \<or> d = 6
    \<or> d = 7 \<or> d = 8 \<or> d = 9"
    by arith
  then show ?thesis
    by (elim disjE) (simp_all add: digit_val_def digit_char_def)
qed

lemma int_of_digits_str_nat: "int_of_digits (str_nat n) = n"
proof (induction n rule: str_nat.induct)
  case (1 n)
  show ?case
  proof (cases "n < 10")
    case True
    then show ?thesis
      by (subst str_nat.simps) (simp add: int_of_digits_def digit_val_digit_char)
  next
    case False
    with 1 have "int_of_digits (str_nat (n div 10)) = n div 10"
      by simp
    then have "int_of_digits (str_nat (n div 10) @ [digit_char (n mod 10)]) = n"
      by (simp add: int_of_digits_def digit_val_digit_char)
    with False show ?thesis
      by (subst str_nat.simps) simp
  qed
qed

lemma str_nat_inj: "str_nat m = str_nat n \<Longrightarrow> m = n"
  by (metis int_of_digits_str_nat)

lemma suffixed_inj: "suffixed b m e = suffixed b n e \<Longrightarrow> m = n"
  by (auto simp: suffixed_def dest: str_nat_inj)

lemma suffixed_hd: "suffixed b m e \<noteq> [] \<and> hd (suffixed b m e) = hd (b @ ''_'')"
  by (cases b) (simp_all add: suffixed_def)

lemma os_path_join_suffixed_inj:
  assumes "os_path_join d (suffixed b m e) = os_path_join d (suffixed b n e)"
  shows "m = n"
proof -
  have "suffixed b m e = suffixed b n e"
    using assms suffixed_hd [of b m e] suffixed_hd [of b n e]
    by (auto simp: os_path_join_def split: if_splits)
  then show ?thesis
    by (rule suffixed_inj)
qed

subsection \<open>The counting loops return\<close>

text \<open>
  Distinct counters give distinct candidates and distinct paths, so a finite set of
  names and a finite file system refuse only finitely many counters.
\<close>

lemma finite_taken_counters:
  assumes "finite used" "finite fs"
  shows "finite {n. suffixed b n e \<in> used \<or> os_path_exists fs (os_path_join d (suffixed b n e))}"
proof -
  have "inj (\<lambda>n. suffixed b n e)"
    by (auto intro!: injI dest: suffixed_inj)
  then have 1: "finite ((\<lambda>n. suffixed b n e) -` used)"
    using assms(1) by (simp add: finite_vimageI)
  have "inj (\<lambda>n. os_path_join d (suffixed b n e))"
    by (auto intro!: injI dest: os_path_join_suffixed_inj)
  then have 2: "finite ((\<lambda>n. os_path_join d (suffixed b n e)) -` fs)"
    using assms(2) by (simp add: finite_vimageI)
  have "{n. suffixed b n e \<in> used \<or> os_path_exists fs (os_path_join d (suffixed b n e))}
        = ((\<lambda>n. suffixed b n e) -` used) \<union> ((\<lambda>n. os_path_join d (suffixed b n e)) -` fs)"
    by (auto simp: os_path_exists_def)
  with 1 2 show ?thesis by simp
qed

lemma first_free_counter:
  assumes "finite {n::nat. P n}"
  shows "\<exists>N\<ge>c. \<not> P N \<and> (\<forall>k. c \<le> k \<and> k < N \<longrightarrow> P k)"
proof -
  have "\<exists>n. c \<le> n \<and> \<not> P n"
  proof (rule ccontr)
    assume "\<not> ?thesis"
    then have "{n. c \<le> n} \<subseteq> {n. P n}" by auto
    then have "finite {n. c \<le> n}" using assms finite_subset by blast
    then show False
      by (metis finite_nat_set_iff_bounded_le mem_Collect_eq nat_le_linear not_less_eq_eq)
  qed
  then obtain n where n: "c \<le> n \<and> \<not> P n" by blast
  define N where "N = (LEAST n. c \<le> n \<and> \<not> P n)"
  have "c \<le> N \<and> \<not> P N"
    unfolding N_def using n by (rule LeastI)
  moreover have "\<forall>k. c \<le> k \<and> k < N \<longrightarrow> P k"
    unfolding N_def using not_less_Least by blast
  ultimately show ?thesis by blast
qed

lemma actual_loop_first_free:
  assumes "c \<le> N"
    and "suffixed b N e \<notin> used \<and> \<not> os_path_exists fs (os_path_join d (suffixed b N e))"
    and "\<forall>k. c \<le> k \<and> k < N \<longrightarrow>
           suffixed b k e \<in> used \<or> os_path_exists fs (os_path_join d (suffixed b k e))"
  shows "actual_loop b e d used fs c = Some (suffixed b N e)"
  using assms
proof (induction "N - c" arbitrary: c)
  case 0
  then have "c = N" by simp
  with 0 show ?case
    by (subst actual_loop.simps) simp
next
  case (Suc x)
  then have lt: "c < N" by simp
  with Suc.prems
  have taken: "suffixed b c e \<in> used \<or> os_path_exists fs (os_path_join d (suffixed b c e))"
    by simp
  have "actual_loop b e d used fs (c + 1) = Some (suffixed b N e)"
    using Suc lt by (intro Suc.hyps) auto
  with taken show ?case
    by (subst actual_loop.simps) auto
qed

lemma preview_loop_first_free:
  assumes "c \<le> N"
    and "suffixed b N e \<notin> used"
    and "\<forall>k. c \<le> k \<and> k < N \<longrightarrow> suffixed b k e \<in> used"
  shows "preview_loop b e used c = Some (suffixed b N e)"
  using assms
proof (induction "N - c" arbitrary: c)
  case 0
  then have "c = N" by simp
  with 0 show ?case
    by (subst preview_loop.simps) simp
next
  case (Suc x)
  then have lt: "c < N" by simp
  with Suc.prems have taken: "suffixed b c e \<in> used"
    by simp
  have "preview_loop b e used (c + 1) = Some (suffixed b N e)"
    using Suc lt by (intro Suc.hyps) auto
  with taken show ?case
    by (subst preview_loop.simps) auto
qed

lemma generate_unique_filename_actual_total:
  assumes "finite used" "finite fs"
  shows "if base_name @ ext \<in> used \<or> os_path_exists fs (os_path_join d (base_name @ ext))
         then \<exists>N\<ge>1. generate_unique_filename_actual base_name ext d used fs
                        = Some (suffixed base_name N ext)
              \<and> suffixed base_name N ext \<notin> used
              \<and> \<not> os_path_exists fs (os_path_join d (suffixed base_name N ext))
              \<and> (\<forall>k. 1 \<le> k \<and> k < N \<longrightarrow> suffixed base_name k ext \<in> used
                     \<or> os_path_exists fs (os_path_join d (suffixed base_name k ext)))
         else generate_unique_filename_actual base_name ext d used fs = Some (base_name @ ext)"
proof (cases "base_name @ ext \<in> used \<or> os_path_exists fs (os_path_join d (base_name @ ext))")
  case True
  obtain N where N: "1 \<le> N"
      "\<not> (suffixed base_name N ext \<in> used
          \<or> os_path_exists fs (os_path_join d (suffixed base_name N ext)))"
      "\<forall>k. 1 \<le> k \<and> k < N \<longrightarrow> suffixed base_name k ext \<in> used
             \<or> os_path_exists fs (os_path_join d (suffixed base_name k ext))"
    using first_free_counter [OF finite_taken_counters [OF assms], of 1 base_name ext d]
    by blast
  then have "actual_loop base_name ext d used fs 1 = Some (suffixed base_name N ext)"
    by (intro actual_loop_first_free) auto
  with True N show ?thesis
    unfolding generate_unique_filename_actual_def by auto
next
  case False
  then show ?thesis
    unfolding generate_unique_filename_actual_def by auto
qed

lemma generate_unique_filename_preview_total:
  assumes "finite used"
  shows "if base_name @ ext \<in> used
         then \<exists>N\<ge>1. generate_unique_filename_preview base_name ext used
                        = Some (suffixed base_name N ext)
              \<and> suffixed base_name N ext \<notin> used
              \<and> (\<forall>k. 1 \<le> k \<and> k < N \<longrightarrow> suffixed base_name k ext \<in> used)
         else generate_unique_filename_preview base_name ext used = Some (base_name @ ext)"
proof (cases "base_name @ ext \<in> used")
  case True
  have "finite {n. suffixed base_name n ext \<in> used
                  \<or> os_path_exists {} (os_path_join [] (suffixed base_name n ext))}"
    using assms by (intro finite_taken_counters) auto
  then have "finite {n. suffixed base_name n ext \<in> used}"
    by (simp add: os_path_exists_def)
  from first_free_counter [OF this, of 1]
  obtain N where N: "1 \<le> N" "suffixed base_name N ext \<notin> used"
      "\<forall>k. 1 \<le> k \<and> k < N \<longrightarrow> suffixed base_name k ext \<in> used"
    by blast
  then have "preview_loop base_name ext used 1 = Some (suffixed base_name N ext)"
    by (intro preview_loop_first_free) auto
  with True N show ?thesis
    unfolding generate_unique_filename_preview_def by auto
next
  case False
  then show ?thesis
    unfolding generate_unique_filename_preview_def by auto
qed

lemma generate_unique_filename_preview_fresh:
  assumes "finite used"
  shows "\<exists>name. generate_unique_filename_preview base_name ext used = Some name \<and> name \<notin> used"
  using generate_unique_filename_preview_total [OF assms, of base_name ext]
  by (auto split: if_splits)

lemma table_rows_distinct:
  assumes "finite used"
  shows "\<exists>rows. table_rows results used = Some rows \<and> length rows = length results
           \<and> distinct (planned_names rows) \<and> set (planned_names rows) \<inter> used = {}"
  using assms
proof (induction results used rule: table_rows.induct)
  case (1 used_names)
  then show ?case by (simp add: planned_names_def)
next
  case (2 fp old dt cm base_name ext results used_names)
  obtain name where name: "generate_unique_filename_preview base_name ext used_names = Some name"
      "name \<notin> used_names"
    using generate_unique_filename_preview_fresh [OF "2.prems"] by blast
  have "finite (insert name used_names)" using "2.prems" by simp
  from "2.IH" [OF name(1) this]
  obtain rows where rows: "table_rows results (insert name used_names) = Some rows"
      "length rows = length results" "distinct (planned_names rows)"
      "set (planned_names rows) \<inter> insert name used_names = {}"
    by blast
  with name show ?case
    by (auto simp: planned_names_def)
next
  case (3 fp old dt cm err new_name results used_names)
  from "3.IH" [OF "3.prems"] show ?case
    by (auto simp: planned_names_def)
qed

lemma free_path_loop_first_free:
  assumes "c \<le> N"
    and "os_path_exists fs np"
    and "\<not> os_path_exists fs
            (os_path_join (os_path_dirname (task_filepath task))
               (suffixed (task_base_name task) N (task_extension task)))"
    and "\<forall>k. c \<le> k \<and> k < N \<longrightarrow>
           os_path_exists fs
             (os_path_join (os_path_dirname (task_filepath task))
                (suffixed (task_base_name task) k (task_extension task)))"
  shows "free_path_loop fs task np c
         = Some (os_path_join (os_path_dirname (task_filepath task))
                   (suffixed (task_base_name task) N (task_extension task)))"
  using assms
proof (induction "N - c" arbitrary: c np)
  case 0
  then have "c = N" by simp
  with 0 show ?case
    by (subst free_path_loop.simps, subst free_path_loop.simps) simp
next
  case (Suc x)
  then have lt: "c < N" by simp
  let ?cand = "os_path_join (os_path_dirname (task_filepath task))
                 (suffixed (task_base_name task) c (task_extension task))"
  from Suc.prems lt have taken: "os_path_exists fs ?cand" by simp
  have "free_path_loop fs task ?cand (c + 1)
        = Some (os_path_join (os_path_dirname (task_filepath task))
                  (suffixed (task_base_name task) N (task_extension task)))"
    using Suc lt taken by (intro Suc.hyps) auto
  with Suc.prems(2) show ?case
    by (subst free_path_loop.simps) simp
qed

lemma free_path_loop_total:
  assumes "finite fs"
  shows "\<exists>p. free_path_loop fs task np 1 = Some p \<and> \<not> os_path_exists fs p"
proof (cases "os_path_exists fs np")
  case False
  then show ?thesis
    by (subst free_path_loop.simps) simp
next
  case True
  have "finite ({} :: string set)" by simp
  from finite_taken_counters [OF this assms]
  have "finite {n. os_path_exists fs
                     (os_path_join (os_path_dirname (task_filepath task))
                        (suffixed (task_base_name task) n (task_extension task)))}"
    by simp
  from first_free_counter [OF this, of 1]
  obtain N where N: "1 \<le> N"
      "\<not> os_path_exists fs
            (os_path_join (os_path_dirname (task_filepath task))
               (suffixed (task_base_name task) N (task_extension task)))"
      "\<forall>k. 1 \<le> k \<and> k < N \<longrightarrow>
           os_path_exists fs
             (os_path_join (os_path_dirname (task_filepath task))
                (suffixed (task_base_name task) k (task_extension task)))"
    by blast
  from free_path_loop_first_free [OF N(1) True N(2) N(3)] N(2) show ?thesis
    by blast
qed

subsection \<open>The file name planner\<close>

text \<open>
  C1. For a finite set of claimed names and a finite file system, the execution-mode
  planner \<open>generate_unique_filename_actual\<close> returns a name that is neither claimed nor
  the name of an existing file of the directory: the plain candidate when that one is
  free, and otherwise the suffixed candidate with the least counter \<open>N \<ge> 1\<close> that is
  free, every smaller counter being claimed or on disk. A candidate on disk is therefore
  refused also when it is not claimed.
\<close>

theorem plan_actual_dual_check:
  assumes "finite used_names" and "finite fs"
  shows "\<exists>name. generate_unique_filename_actual base_name extension directory used_names fs
                   = Some name
           \<and> name \<notin> used_names
           \<and> \<not> os_path_exists fs (os_path_join directory name)
           \<and> (if base_name @ extension \<in> used_names
                   \<or> os_path_exists fs (os_path_join directory (base_name @ extension))
               then \<exists>N\<ge>1. name = suffixed base_name N extension
                      \<and> (\<forall>k. 1 \<le> k \<and> k < N \<longrightarrow>
                             suffixed base_name k extension \<in> used_names
                           \<or> os_path_exists fs
                                (os_path_join directory (suffixed base_name k extension)))
               else name = base_name @ extension)"
  using generate_unique_filename_actual_total [OF assms, of base_name extension directory]
  by (auto split: if_splits)

theorem plan_actual_dual_check_witness:
  "finite ({} :: string set) \<and> finite {''/p/a.jpg'', ''/p/a_1.jpg''}
   \<and> ''a.jpg'' \<notin> ({} :: string set)
   \<and> generate_unique_filename_actual ''a'' ''.jpg'' ''/p'' {} {''/p/a.jpg'', ''/p/a_1.jpg''}
       = Some ''a_2.jpg''"
  using plan_actual_dual_check [where used_names = "{}" and fs = "{''/p/a.jpg'', ''/p/a_1.jpg''}"
      and base_name = "''a''" and extension = "''.jpg''" and directory = "''/p''"]
  by (simp add: generate_unique_filename_actual_def actual_loop.simps suffixed_def
      str_nat.simps digit_char_def os_path_join_def os_path_exists_def)

text \<open>
  C10. For a finite set of claimed names both generators return (the execution-mode one
  for a finite file system), the preview-mode result is not a member of the set passed
  in, and the preview table, which adds every planned name to the set before the next
  call, plans pairwise distinct names for the renamable files of a batch.
\<close>

theorem unique_filename_generators_terminate:
  assumes "finite used_names"
  shows "(\<exists>name. generate_unique_filename_preview base_name extension used_names = Some name
             \<and> name \<notin> used_names)
       \<and> (finite fs \<longrightarrow>
            (\<exists>name. generate_unique_filename_actual base_name extension directory used_names fs
                       = Some name))
       \<and> (\<exists>rows. update_preview_table results = Some rows
             \<and> length rows = length results \<and> distinct (planned_names rows))"
proof (intro conjI impI)
  show "\<exists>name. generate_unique_filename_preview base_name extension used_names = Some name
          \<and> name \<notin> used_names"
    using assms by (rule generate_unique_filename_preview_fresh)
next
  assume "finite fs"
  from generate_unique_filename_actual_total [OF assms this, of base_name extension directory]
  show "\<exists>name. generate_unique_filename_actual base_name extension directory used_names fs
                  = Some name"
    by (auto split: if_splits)
next
  have "finite ({} :: string set)" by simp
  from table_rows_distinct [OF this, of results]
  show "\<exists>rows. update_preview_table results = Some rows
          \<and> length rows = length results \<and> distinct (planned_names rows)"
    by (auto simp: update_preview_table_def)
qed

theorem unique_filename_generators_terminate_witness:
  "finite {''a.jpg'', ''a_1.jpg''}
   \<and> generate_unique_filename_preview ''a'' ''.jpg'' {''a.jpg'', ''a_1.jpg''} = Some ''a_2.jpg''
   \<and> finite {''/p/a_2.jpg''}
   \<and> generate_unique_filename_actual ''a'' ''.jpg'' ''/p'' {''a.jpg'', ''a_1.jpg''}
        {''/p/a_2.jpg''} = Some ''a_3.jpg''
   \<and> map_option planned_names
        (update_preview_table
           [Renamable ''/p/x.jpg'' ''x.jpg'' ''t'' ''c'' ''t_c'' ''.jpg'',
            Unreadable ''/p/y.jpg'' ''y.jpg'' None None PROCESS_ERROR ''ERROR_y.jpg'',
            Renamable ''/p/z.jpg'' ''z.jpg'' ''t'' ''c'' ''t_c'' ''.jpg''])
      = Some [''t_c.jpg'', ''t_c_1.jpg'']"
  using unique_filename_generators_terminate [where used_names = "{''a.jpg'', ''a_1.jpg''}"
      and fs = "{''/p/a_2.jpg''}" and base_name = "''a''" and extension = "''.jpg''"
      and directory = "''/p''"
      and results = "[Renamable ''/p/x.jpg'' ''x.jpg'' ''t'' ''c'' ''t_c'' ''.jpg'',
            Unreadable ''/p/y.jpg'' ''y.jpg'' None None PROCESS_ERROR ''ERROR_y.jpg'',
            Renamable ''/p/z.jpg'' ''z.jpg'' ''t'' ''c'' ''t_c'' ''.jpg'']"]
  by (simp add: generate_unique_filename_actual_def actual_loop.simps suffixed_def
      generate_unique_filename_preview_def preview_loop.simps update_preview_table_def
      planned_names_def str_nat.simps digit_char_def os_path_join_def os_path_exists_def)

subsection \<open>The normalizer\<close>

lemma try_formats_first_parse:
  "try_formats P fmts s = (case first_parse P fmts (strip P s) of
                           None \<Rightarrow> unknown_time | Some dt_obj \<Rightarrow> strftime P dt_obj)"
  by (induction fmts) (auto simp: first_parse_def split: option.splits)

lemma strptime_empty: "fmt \<in> set formats \<Longrightarrow> strptime P [] fmt = None"
  by (auto simp: formats_def strptime_def is_space_def directive_regex_def digits_def
      List.map_filter_def replicate_numeral_unfold)

lemma first_parse_empty: "first_parse P formats [] = None"
proof -
  have "List.find (\<lambda>fmt. strptime P [] fmt \<noteq> None) formats = None"
    by (simp add: find_None_iff strptime_empty)
  then show ?thesis by (simp add: first_parse_def)
qed

lemma format_datetime_string_first_parse:
  "format_datetime_string P s = (case first_parse P formats (strip P s) of
                                 None \<Rightarrow> unknown_time | Some dt_obj \<Rightarrow> strftime P dt_obj)"
proof (cases "s = []")
  case True
  then show ?thesis
    by (simp add: format_datetime_string_def first_parse_empty strip_def)
next
  case False
  then show ?thesis
    by (simp add: format_datetime_string_def try_formats_first_parse)
qed

lemma digit_char_digits: "d < 10 \<Longrightarrow> digit_char d \<in> set digits"
proof -
  assume "d < 10"
  then have "d = 0 \<or> d = 1 \<or> d = 2 \<or> d = 3 \<or> d = 4 \<or> d = 5 \<or> d = 6
    \<or> d = 7 \<or> d = 8 \<or> d = 9"
    by arith
  then show ?thesis
    by (elim disjE) (simp_all add: digits_def digit_char_def)
qed

lemma str_nat_digits: "set (str_nat n) \<subseteq> set digits"
proof (induction n rule: str_nat.induct)
  case (1 n)
  show ?case
  proof (cases "n < 10")
    case True
    then show ?thesis
      by (subst str_nat.simps) (simp add: digit_char_digits)
  next
    case False
    with 1 have "set (str_nat (n div 10)) \<subseteq> set digits" by simp
    moreover have "digit_char (n mod 10) \<in> set digits"
      by (simp add: digit_char_digits)
    ultimately show ?thesis
      using False by (subst str_nat.simps) simp
  qed
qed

lemma length_str_nat: "n < 10 ^ k \<Longrightarrow> 0 < k \<Longrightarrow> length (str_nat n) \<le> k"
proof (induction n arbitrary: k rule: str_nat.induct)
  case (1 n)
  show ?case
  proof (cases "n < 10")
    case True
    with 1 show ?thesis
      by (subst str_nat.simps) simp
  next
    case False
    obtain j where k: "k = Suc j" using 1(3) by (cases k) auto
    with 1(2) False have j: "0 < j" by (cases j) auto
    from 1(2) k have "n div 10 < 10 ^ j"
      by (simp add: less_mult_imp_div_less mult.commute)
    from 1(1) [OF False this j] k False show ?thesis
      by (subst str_nat.simps) simp
  qed
qed

lemma zfill_length: "length s \<le> w \<Longrightarrow> length (zfill w s) = w"
  by (simp add: zfill_def)

lemma zfill_digits: "set s \<subseteq> set digits \<Longrightarrow> set (zfill w s) \<subseteq> set digits"
  by (auto simp: zfill_def digits_def)

lemma field2:
  assumes "n \<le> 99"
  shows "length (zfill 2 (str_nat n)) = 2 \<and> set (zfill 2 (str_nat n)) \<subseteq> set digits"
proof -
  have "n < 10 ^ 2" using assms by simp
  then have "length (str_nat n) \<le> 2" by (rule length_str_nat) simp
  then show ?thesis
    by (simp add: zfill_length zfill_digits str_nat_digits)
qed

lemma field4:
  assumes "n \<le> 9999"
  shows "length (zfill 4 (str_nat n)) = 4 \<and> set (zfill 4 (str_nat n)) \<subseteq> set digits"
proof -
  have "n < 10 ^ 4" using assms by simp
  then have "length (str_nat n) \<le> 4" by (rule length_str_nat) simp
  then show ?thesis
    by (simp add: zfill_length zfill_digits str_nat_digits)
qed

lemma strptime_ranges:
  assumes "strptime P t fmt = Some dt"
  shows "year dt \<le> 9999 \<and> month dt \<le> 12 \<and> day dt \<le> 31 \<and> hour dt \<le> 23
         \<and> minute dt \<le> 59 \<and> second dt \<le> 59"
proof -
  have dim: "days_in_month y m \<le> 31" if "m \<le> 12" for y m
  proof -
    from that have "m = 0 \<or> m = 1 \<or> m = 2 \<or> m = 3 \<or> m = 4 \<or> m = 5 \<or> m = 6 \<or> m = 7
      \<or> m = 8 \<or> m = 9 \<or> m = 10 \<or> m = 11 \<or> m = 12"
      by arith
    then show ?thesis
      by (elim disjE) (simp_all add: days_in_month_def)
  qed
  from assms obtain y mo d h mi s us where "datetime_new y mo d h mi s us = Some dt"
    by (auto simp: strptime_def split: option.splits prod.splits if_splits)
  then show ?thesis
    using dim [of mo y]
    by (auto simp: datetime_new_def split: if_splits)
qed

lemma length_str_nat_ge: "10 ^ k \<le> n \<Longrightarrow> k < length (str_nat n)"
proof (induction n arbitrary: k rule: str_nat.induct)
  case (1 n)
  show ?case
  proof (cases "n < 10")
    case True
    have "k = 0"
    proof (cases k)
      case (Suc j)
      have "(10::nat) \<le> 10 * 10 ^ j" by simp
      with 1(2) Suc True show ?thesis by simp
    qed simp
    with True show ?thesis
      by (subst str_nat.simps) simp
  next
    case False
    show ?thesis
    proof (cases k)
      case 0
      with False show ?thesis
        by (subst str_nat.simps) simp
    next
      case (Suc j)
      with 1(2) have "10 ^ j \<le> n div 10"
        by (simp add: less_eq_div_iff_mult_less_eq mult.commute)
      from 1(1) [OF False this] Suc False show ?thesis
        by (subst str_nat.simps) simp
    qed
  qed
qed

lemma year_field:
  assumes "n \<le> 9999" and "pads_year P \<or> 1000 \<le> n"
  shows "length (if pads_year P then zfill 4 (str_nat n) else str_nat n) = 4
         \<and> set (if pads_year P then zfill 4 (str_nat n) else str_nat n) \<subseteq> set digits"
proof (cases "pads_year P")
  case True
  with field4 [OF assms(1)] show ?thesis by simp
next
  case False
  with assms(2) have "10 ^ 3 \<le> n" by simp
  then have "3 < length (str_nat n)" by (rule length_str_nat_ge)
  moreover have "n < 10 ^ 4" using assms(1) by simp
  then have "length (str_nat n) \<le> 4" by (rule length_str_nat) simp
  ultimately show ?thesis
    using False by (simp add: str_nat_digits)
qed

lemma strftime_seconds:
  assumes "second dt \<le> 59"
  shows "drop (length (strftime P dt) - 2) (strftime P dt) = zfill 2 (str_nat (second dt))"
proof -
  have "length (zfill 2 (str_nat (second dt))) = 2"
    using field2 [of "second dt"] assms by simp
  then show ?thesis
    by (simp add: strftime_def)
qed

lemma strftime_shape:
  assumes "year dt \<le> 9999" "month dt \<le> 12" "day dt \<le> 31" "hour dt \<le> 23"
    "minute dt \<le> 59" "second dt \<le> 59" and "pads_year P \<or> 1000 \<le> year dt"
  shows "is_canonical (strftime P dt)"
proof -
  define Y where "Y = (if pads_year P then zfill 4 (str_nat (year dt)) else str_nat (year dt))"
  define M where "M = zfill 2 (str_nat (month dt))"
  define D where "D = zfill 2 (str_nat (day dt))"
  define h where "h = zfill 2 (str_nat (hour dt))"
  define m where "m = zfill 2 (str_nat (minute dt))"
  define s where "s = zfill 2 (str_nat (second dt))"
  have Y: "length Y = 4" "set Y \<subseteq> set digits"
    using year_field [of "year dt" P] assms by (simp_all add: Y_def)
  have M: "length M = 2" "set M \<subseteq> set digits"
    using field2 [of "month dt"] assms by (simp_all add: M_def)
  have D: "length D = 2" "set D \<subseteq> set digits"
    using field2 [of "day dt"] assms by (simp_all add: D_def)
  have h: "length h = 2" "set h \<subseteq> set digits"
    using field2 [of "hour dt"] assms by (simp_all add: h_def)
  have m: "length m = 2" "set m \<subseteq> set digits"
    using field2 [of "minute dt"] assms by (simp_all add: m_def)
  have s: "length s = 2" "set s \<subseteq> set digits"
    using field2 [of "second dt"] assms by (simp_all add: s_def)
  have eq: "strftime P dt = Y @ M @ D @ ''_'' @ h @ m @ s"
    by (simp add: strftime_def Y_def M_def D_def h_def m_def s_def)
  show "is_canonical (strftime P dt)"
    unfolding eq is_canonical_def
    using Y M D h m s by (auto simp: nth_append list_all_iff)
qed

lemma strftime_not_unknown: "strftime P dt \<noteq> unknown_time"
proof
  assume "strftime P dt = unknown_time"
  then have "CHR ''_'' \<in> set unknown_time"
    by (metis strftime_def in_set_conv_decomp append.assoc append_Cons)
  then show False
    by (simp add: unknown_time_def)
qed

lemma first_parse_Some:
  "first_parse P fmts s = Some dt \<Longrightarrow> \<exists>fmt \<in> set fmts. strptime P s fmt = Some dt"
  by (auto simp: first_parse_def find_Some_iff split: option.splits)

lemma first_some_Some: "first_some xs = Some x \<Longrightarrow> Some x \<in> set xs"
  by (induction xs rule: first_some.induct) auto

lemma regex_match_keys:
  "regex_match P items s = Some (groups, rest) \<Longrightarrow> map fst groups = directives items"
proof (induction items arbitrary: s groups rest)
  case Nil
  then show ?case by (simp add: directives_def)
next
  case (Cons item items)
  from Cons.prems have "Some (groups, rest) \<in> set (map (\<lambda>(m, r). map_option (\<lambda>(groups, rest). (add_group item m groups, rest))
                                   (regex_match P items r)) (alternatives P item s))"
    by (intro first_some_Some) simp
  then obtain m r where mr: "Some (groups, rest)
      = map_option (\<lambda>(groups, rest). (add_group item m groups, rest)) (regex_match P items r)"
    by auto
  then obtain g where g: "regex_match P items r = Some (g, rest)" "groups = add_group item m g"
    by (cases "regex_match P items r") auto
  from Cons.IH [OF g(1)] g(2) show ?case
    by (cases item) (simp_all add: directives_def)
qed

lemma no_seconds_default:
  assumes "fmt \<in> set [''%Y:%m:%d %H:%M'', ''%Y-%m-%d %H:%M'', ''%Y/%m/%d %H:%M'']"
    and "strptime P t fmt = Some dt"
  shows "second dt = 0"
proof -
  from assms(1) obtain items where c: "compile_format fmt = Some items"
      "directives items = [DY, Dm, Dd, DH, DM]"
    by (auto simp: is_space_def directives_def)
  from assms(2) c(1) obtain groups where m: "regex_match P items (chars t) = Some (groups, [])"
      "datetime_new (group_int P groups DY 1900) (group_int P groups Dm 1)
         (group_int P groups Dd 1) (group_int P groups DH 0) (group_int P groups DM 0)
         (group_int P groups DS 0) (fraction P groups) = Some dt"
    by (auto simp: strptime_def split: option.splits prod.splits if_splits)
  from regex_match_keys [OF m(1)] c(2) have "DS \<notin> set (map fst groups)" by simp
  then have "map_of groups DS = None"
    by (simp add: map_of_eq_None_iff)
  then have "group_int P groups DS 0 = 0"
    by (simp add: group_int_def)
  with m(2) show ?thesis
    by (auto simp: datetime_new_def split: if_splits)
qed

text \<open>
  C6, as the program has it, on every platform. \<open>format_datetime_string\<close> returns the
  unknown time for the empty text and for the zero timestamp. For every text it tries,
  on the stripped text and in this order, the patterns with seconds separated by colons,
  dashes and slashes, the colon and dash patterns with fractional seconds (there is none
  with slashes), ISO 8601 without and with a trailing Z, and the three patterns without
  seconds; the first that parses gives the result, which is never the unknown time, and
  the unknown time is returned when none does. The result of a parse has the canonical
  shape of 15 characters when the year is 1000 or later, or when the platform pads the
  year; a parse by a pattern without seconds prints the seconds as 00.
\<close>

theorem format_datetime_string_first_match:
  "format_datetime_string P [] = unknown_time
   \<and> format_datetime_string P ''0000:00:00 00:00:00'' = unknown_time
   \<and> format_datetime_string P date_time_str
       = (case first_parse P
                 [''%Y:%m:%d %H:%M:%S'', ''%Y-%m-%d %H:%M:%S'', ''%Y/%m/%d %H:%M:%S'',
                  ''%Y:%m:%d %H:%M:%S.%f'', ''%Y-%m-%d %H:%M:%S.%f'',
                  ''%Y-%m-%dT%H:%M:%S'', ''%Y-%m-%dT%H:%M:%SZ'',
                  ''%Y:%m:%d %H:%M'', ''%Y-%m-%d %H:%M'', ''%Y/%m/%d %H:%M'']
                 (strip P date_time_str) of
            None \<Rightarrow> unknown_time
          | Some dt_obj \<Rightarrow> strftime P dt_obj)
   \<and> strftime P dt_obj \<noteq> unknown_time
   \<and> (strptime P t fmt = Some dt_obj \<and> (pads_year P \<or> 1000 \<le> year dt_obj)
        \<longrightarrow> is_canonical (strftime P dt_obj))
   \<and> (fmt \<in> set [''%Y:%m:%d %H:%M'', ''%Y-%m-%d %H:%M'', ''%Y/%m/%d %H:%M'']
        \<and> strptime P t fmt = Some dt_obj
        \<longrightarrow> drop (length (strftime P dt_obj) - 2) (strftime P dt_obj) = ''00'')"
proof (intro conjI impI)
  show "format_datetime_string P [] = unknown_time"
    by (simp add: format_datetime_string_def)
  show "format_datetime_string P ''0000:00:00 00:00:00'' = unknown_time"
    by (simp add: normalize_eval)
  show "format_datetime_string P date_time_str
       = (case first_parse P
                 [''%Y:%m:%d %H:%M:%S'', ''%Y-%m-%d %H:%M:%S'', ''%Y/%m/%d %H:%M:%S'',
                  ''%Y:%m:%d %H:%M:%S.%f'', ''%Y-%m-%d %H:%M:%S.%f'',
                  ''%Y-%m-%dT%H:%M:%S'', ''%Y-%m-%dT%H:%M:%SZ'',
                  ''%Y:%m:%d %H:%M'', ''%Y-%m-%d %H:%M'', ''%Y/%m/%d %H:%M'']
                 (strip P date_time_str) of
            None \<Rightarrow> unknown_time
          | Some dt_obj \<Rightarrow> strftime P dt_obj)"
    using format_datetime_string_first_parse [of P date_time_str]
    unfolding formats_def .
  show "strftime P dt_obj \<noteq> unknown_time"
    by (rule strftime_not_unknown)
  show "is_canonical (strftime P dt_obj)"
    if "strptime P t fmt = Some dt_obj \<and> (pads_year P \<or> 1000 \<le> year dt_obj)"
  proof -
    from that have "strptime P t fmt = Some dt_obj" by simp
    from strptime_ranges [OF this] that show ?thesis
      by (intro strftime_shape) simp_all
  qed
  show "drop (length (strftime P dt_obj) - 2) (strftime P dt_obj) = ''00''"
    if "fmt \<in> set [''%Y:%m:%d %H:%M'', ''%Y-%m-%d %H:%M'', ''%Y/%m/%d %H:%M'']
        \<and> strptime P t fmt = Some dt_obj"
  proof -
    from that have s: "second dt_obj = 0"
      using no_seconds_default by blast
    then have "drop (length (strftime P dt_obj) - 2) (strftime P dt_obj)
               = zfill 2 (str_nat (second dt_obj))"
      by (intro strftime_seconds) simp
    with s show ?thesis
      by (simp add: zfill_def str_nat.simps digit_char_def)
  qed
qed

theorem format_datetime_string_first_match_witness:
  "\<forall>P. format_datetime_string P ''2021/04/30 09:00'' = ''20210430_090000''
       \<and> ''%Y/%m/%d %H:%M'' \<in> set [''%Y:%m:%d %H:%M'', ''%Y-%m-%d %H:%M'', ''%Y/%m/%d %H:%M'']
       \<and> strptime P ''2021/04/30 09:00'' ''%Y/%m/%d %H:%M''
           = Some \<lparr>year = 2021, month = 4, day = 30, hour = 9, minute = 0, second = 0,
                    microsecond = 0\<rparr>
       \<and> (pads_year P \<or> 1000 \<le> year \<lparr>year = 2021, month = 4, day = 30, hour = 9,
             minute = 0, second = 0, microsecond = 0\<rparr>)
       \<and> is_canonical (strftime P \<lparr>year = 2021, month = 4, day = 30, hour = 9, minute = 0,
             second = 0, microsecond = 0\<rparr>)
       \<and> drop (length (strftime P \<lparr>year = 2021, month = 4, day = 30, hour = 9, minute = 0,
                  second = 0, microsecond = 0\<rparr>) - 2)
            (strftime P \<lparr>year = 2021, month = 4, day = 30, hour = 9, minute = 0, second = 0,
               microsecond = 0\<rparr>) = ''00''"
proof
  fix P
  let ?dt = "\<lparr>year = 2021, month = 4, day = 30, hour = 9, minute = 0, second = 0,
               microsecond = 0\<rparr>"
  have f: "format_datetime_string P ''2021/04/30 09:00'' = ''20210430_090000''"
    by (simp add: normalize_eval)
  have p: "strptime P ''2021/04/30 09:00'' ''%Y/%m/%d %H:%M'' = Some ?dt"
    by (simp add: normalize_eval)
  have y: "pads_year P \<or> 1000 \<le> year ?dt"
    by simp
  have m: "''%Y/%m/%d %H:%M'' \<in> set [''%Y:%m:%d %H:%M'', ''%Y-%m-%d %H:%M'', ''%Y/%m/%d %H:%M'']"
    by simp
  note T = format_datetime_string_first_match
    [where P = P and date_time_str = "''2021/04/30 09:00''" and fmt = "''%Y/%m/%d %H:%M''"
       and t = "''2021/04/30 09:00''" and dt_obj = ?dt]
  from T p y have c: "is_canonical (strftime P ?dt)"
    by blast
  from T m p have d: "drop (length (strftime P ?dt) - 2) (strftime P ?dt) = ''00''"
    by blast
  from f m p y c d
  show "format_datetime_string P ''2021/04/30 09:00'' = ''20210430_090000''
       \<and> ''%Y/%m/%d %H:%M'' \<in> set [''%Y:%m:%d %H:%M'', ''%Y-%m-%d %H:%M'', ''%Y/%m/%d %H:%M'']
       \<and> strptime P ''2021/04/30 09:00'' ''%Y/%m/%d %H:%M'' = Some ?dt
       \<and> (pads_year P \<or> 1000 \<le> year ?dt)
       \<and> is_canonical (strftime P ?dt)
       \<and> drop (length (strftime P ?dt) - 2) (strftime P ?dt) = ''00''"
    by (intro conjI)
qed

text \<open>
  A slash-separated time with fractional seconds is a text the pattern
  \<^verbatim>\<open>%Y/%m/%d %H:%M:%S.%f\<close> parses, and \<open>format_datetime_string\<close> returns the unknown time
  for it. On a platform that does not pad the year, the year 999 gives a result of 14
  characters.
\<close>

theorem slash_fraction_not_normalized:
  "\<forall>P. strptime P ''2021/04/30 09:00:00.5'' ''%Y/%m/%d %H:%M:%S.%f''
         = Some \<lparr>year = 2021, month = 4, day = 30, hour = 9, minute = 0, second = 0,
                  microsecond = 500000\<rparr>
       \<and> format_datetime_string P ''2021/04/30 09:00:00.5'' = unknown_time
       \<and> format_datetime_string (P\<lparr>pads_year := False\<rparr>) ''0999:01:01 00:00:00''
           = ''9990101_000000''
       \<and> \<not> is_canonical ''9990101_000000''"
  by (simp add: normalize_eval is_canonical_def)

subsection \<open>Structured tag access\<close>

lemma usable_values_Cons:
  "usable_values P TAGS exifdata (tag_id # tag_ids) field
   = (if TAGS tag_id = Some field
         \<and> strip P (to_text (exif_get exifdata tag_id)) \<noteq> []
         \<and> strip P (to_text (exif_get exifdata tag_id)) \<noteq> zero_time
      then [strip P (to_text (exif_get exifdata tag_id))] else [])
     @ usable_values P TAGS exifdata tag_ids field"
  by (simp add: usable_values_def)

lemma scan_field_first:
  "fst (scan_field P TAGS exifdata field tag_ids (None, cm))
   = (case usable_values P TAGS exifdata tag_ids field of [] \<Rightarrow> None | v # _ \<Rightarrow> Some v)"
proof (induction tag_ids arbitrary: cm)
  case Nil
  then show ?case by (simp add: usable_values_def)
next
  case (Cons tag_id tag_ids)
  show ?case
  proof (cases "TAGS tag_id = Some field")
    case True
    then show ?thesis
      using Cons [of cm] by (simp add: usable_values_Cons)
  next
    case False
    then have u: "usable_values P TAGS exifdata (tag_id # tag_ids) field
                  = usable_values P TAGS exifdata tag_ids field"
      by (simp add: usable_values_Cons)
    show ?thesis
      unfolding u using False Cons by simp
  qed
qed

lemma scan_fields_first:
  "fst (scan_fields P TAGS exifdata field_names (None, cm))
   = (case concat (map (usable_values P TAGS exifdata (map fst exifdata)) field_names) of
        [] \<Rightarrow> None | v # _ \<Rightarrow> Some v)"
proof (induction field_names arbitrary: cm)
  case Nil
  then show ?case by simp
next
  case (Cons field field_names)
  obtain dt cm1 where r: "scan_field P TAGS exifdata field (map fst exifdata) (None, cm) = (dt, cm1)"
    by (cases "scan_field P TAGS exifdata field (map fst exifdata) (None, cm)")
  with scan_field_first [of P TAGS exifdata field "map fst exifdata" cm]
  have dt: "dt = (case usable_values P TAGS exifdata (map fst exifdata) field of
                    [] \<Rightarrow> None | v # _ \<Rightarrow> Some v)"
    by simp
  show ?case
  proof (cases "usable_values P TAGS exifdata (map fst exifdata) field")
    case Nil
    with dt r Cons [of cm1] show ?thesis by simp
  next
    case (Cons v vs)
    with dt r show ?thesis by simp
  qed
qed

lemma scan_all_tags_none:
  assumes "\<forall>field \<in> set time_fields. usable_values P TAGS exifdata tag_ids field = []"
  shows "fst (scan_all_tags P TAGS exifdata tag_ids (None, cm)) = None"
  using assms
proof (induction tag_ids arbitrary: cm)
  case Nil
  then show ?case by simp
next
  case (Cons tag_id tag_ids)
  have rest: "\<forall>field \<in> set time_fields. usable_values P TAGS exifdata tag_ids field = []"
    using Cons.prems by (simp add: usable_values_Cons)
  show ?case
  proof (cases "TAGS tag_id \<in> Some ` set time_fields")
    case True
    then obtain field where f: "field \<in> set time_fields" "TAGS tag_id = Some field"
      by auto
    with Cons.prems have "usable_values P TAGS exifdata (tag_id # tag_ids) field = []"
      by blast
    with f have "\<not> (strip P (to_text (exif_get exifdata tag_id)) \<noteq> []
                 \<and> strip P (to_text (exif_get exifdata tag_id)) \<noteq> zero_time)"
      by (auto simp: usable_values_Cons split: if_splits)
    with True Cons.IH [OF rest, of cm] show ?thesis
      by (simp del: set_simps)
  next
    case False
    with Cons.IH [OF rest] show ?thesis
      by (simp del: set_simps)
  qed
qed

lemma concat_usable_Nil:
  assumes "concat (map (usable_values P TAGS exifdata tag_ids) time_fields) = []"
  shows "\<forall>field \<in> set time_fields. usable_values P TAGS exifdata tag_ids field = []"
  using assms by auto

text \<open>
  C2. The time of \<open>parse_exif_with_pil\<close> is the normalized \<open>priority_timestamp\<close> of the tag
  dictionary, and the unknown time when no tag has a usable value: the field names are
  searched in the strict order DateTimeOriginal, DateTime, DateTimeDigitized,
  CreateDate, ModifyDate and within one name the first usable value in iteration order
  wins. For \<open>two_dates\<close> the DateTimeOriginal value is chosen and the time is
  20210430_090000.
\<close>

theorem timestamp_by_strict_priority:
  "fst (parse_exif_with_pil P TAGS exifdata)
     = (case priority_timestamp P TAGS exifdata of
          None \<Rightarrow> unknown_time
        | Some v \<Rightarrow> format_datetime_string P v)
   \<and> priority_timestamp P exif_tags two_dates = Some ''2021:04:30 09:00:00''
   \<and> fst (parse_exif_with_pil P exif_tags two_dates) = ''20210430_090000''"
proof (intro conjI)
  let ?vals = "concat (map (usable_values P TAGS exifdata (map fst exifdata)) time_fields)"
  have p: "priority_timestamp P TAGS exifdata = (case ?vals of [] \<Rightarrow> None | v # _ \<Rightarrow> Some v)"
    by (simp add: priority_timestamp_def time_fields_def)
  obtain dt cm where r: "scan_fields P TAGS exifdata time_fields (None, ''Unknown'') = (dt, cm)"
    by (cases "scan_fields P TAGS exifdata time_fields (None, ''Unknown'')")
  with scan_fields_first [of P TAGS exifdata time_fields "''Unknown''"]
  have dt: "dt = (case ?vals of [] \<Rightarrow> None | v # _ \<Rightarrow> Some v)"
    by simp
  show "fst (parse_exif_with_pil P TAGS exifdata)
     = (case priority_timestamp P TAGS exifdata of
          None \<Rightarrow> unknown_time
        | Some v \<Rightarrow> format_datetime_string P v)"
  proof (cases ?vals)
    case Nil
    have "dt = None" unfolding dt Nil by simp
    moreover obtain dt2 cm2 where
      r2: "scan_all_tags P TAGS exifdata (map fst exifdata) (None, cm) = (dt2, cm2)"
      by (cases "scan_all_tags P TAGS exifdata (map fst exifdata) (None, cm)")
    moreover have "dt2 = None"
      using scan_all_tags_none [OF concat_usable_Nil [OF Nil], of cm] r2 by simp
    moreover have "priority_timestamp P TAGS exifdata = None"
      unfolding p Nil by simp
    ultimately show ?thesis
      using r by (simp add: parse_exif_with_pil_def)
  next
    case (Cons v vs)
    have "dt = Some v" unfolding dt Cons by simp
    moreover have "priority_timestamp P TAGS exifdata = Some v"
      unfolding p Cons by simp
    ultimately show ?thesis
      using r by (simp add: parse_exif_with_pil_def)
  qed
next
  show "priority_timestamp P exif_tags two_dates = Some ''2021:04:30 09:00:00''"
    by (simp add: priority_timestamp_def usable_values_def two_dates_def exif_tags_def
        exif_get_def strip_def is_space_def is_whitespace_def byte_in_def zero_time_def)
next
  have 1: "scan_fields P exif_tags two_dates time_fields (None, ''Unknown'')
           = (Some ''2021:04:30 09:00:00'', ''Unknown'')"
    by (simp add: two_dates_def exif_tags_def time_fields_def exif_get_def zero_time_def
        strip_def is_space_def is_whitespace_def byte_in_def)
  have 2: "format_datetime_string P ''2021:04:30 09:00:00'' = ''20210430_090000''"
    by (simp add: normalize_eval)
  show "fst (parse_exif_with_pil P exif_tags two_dates) = ''20210430_090000''"
    unfolding parse_exif_with_pil_def 1 prod.case option.case 2
    by (simp add: unknown_time_def)
qed

subsection \<open>The fallback chain\<close>

lemma accepted_cases:
  "accepted r = None \<or> (\<exists>dt cm. r = Some (dt, cm) \<and> dt \<noteq> [] \<and> dt \<noteq> unknown_time
      \<and> accepted r = Some (dt, cm))"
  by (cases r rule: accepted.cases) auto

lemma first_usable_Cons:
  "first_usable (r # rs) = (case accepted r of Some p \<Rightarrow> Some p | None \<Rightarrow> first_usable rs)"
  by (cases r rule: accepted.cases) auto

lemma first_usable_Some:
  "first_usable rs = Some (dt, cm) \<Longrightarrow> dt \<noteq> [] \<and> dt \<noteq> unknown_time"
  by (induction rs rule: first_usable.induct) (auto split: if_splits)

lemma get_advanced_exif_data_first_usable:
  "get_advanced_exif_data P TAGS f
   = (case first_usable [method1 P TAGS f, method2 P TAGS f, method3 P TAGS f, method4 P f] of
        Some (date_time, camera_model) \<Rightarrow> (date_time, camera_model, None)
      | None \<Rightarrow> (unknown_time, ''Unknown'', Some no_exif_info))"
  by (simp add: get_advanced_exif_data_def first_usable_Cons split: option.splits)

text \<open>
  C3, as the program has it. When a stage finds no usable time, also because the time it
  found does not normalize, extraction goes on to the next stage; the outcome is the
  time and the camera model of the first stage whose time is usable, and the unknown
  time with the camera model \<open>Unknown\<close> when no stage has one. A camera model found by
  a stage that failed is not kept.
\<close>

theorem fallback_chain_discards_failed_stage:
  "get_advanced_exif_data P TAGS f
   = (case first_usable [method1 P TAGS f, method2 P TAGS f, method3 P TAGS f, method4 P f] of
        Some (date_time, camera_model) \<Rightarrow> (date_time, camera_model, None)
      | None \<Rightarrow> (unknown_time, ''Unknown'', Some no_exif_info))"
  by (rule get_advanced_exif_data_first_usable)

text \<open>
  The first stage of \<open>canon_garbage\<close> finds the camera model \<open>Canon\<close> and a time that
  does not normalize; no later stage finds anything, and the outcome's camera model is
  \<open>Unknown\<close>.
\<close>

theorem failed_stage_model_not_carried_forward:
  "\<forall>P. method1 P exif_tags canon_garbage = Some (unknown_time, ''Canon'')
       \<and> get_advanced_exif_data P exif_tags canon_garbage
           = (unknown_time, ''Unknown'', Some no_exif_info)"
  by (simp add: get_advanced_exif_data_def method1_def method2_def method3_def method4_def
      canon_garbage_def parse_exif_with_pil_def exif_tags_def time_fields_def exif_get_def
      parse_raw_exif_def remove_spaces_def zero_time_def normalize_eval)

subsection \<open>The IFD parse\<close>

lemma slice_slice:
  "a + k \<le> length xs \<Longrightarrow> i \<le> j \<Longrightarrow> j \<le> k \<Longrightarrow>
   slice (slice xs a (a + k)) i j = slice xs (a + i) (a + j)"
  by (simp add: slice_def take_drop min_def add.commute)

lemma length_slice: "b \<le> length xs \<Longrightarrow> length (slice xs a b) = b - a"
  by (simp add: slice_def)

lemma fst_ifd_field:
  "fst (ifd_field P tiff_data tag_id cnt voff (dt, cm))
   = (case field_timestamp P tiff_data tag_id cnt voff of Some t \<Rightarrow> t | None \<Rightarrow> dt)"
proof (cases "tag_id \<in> set [306, 36867, 36868]")
  case False
  then show ?thesis
    by (simp add: ifd_field_def field_timestamp_def Let_def)
next
  case tag: True
  show ?thesis
  proof (cases "4 < cnt \<and> cnt < 20")
    case False
    with tag show ?thesis
      unfolding ifd_field_def field_timestamp_def by auto
  next
    case True
    then have bound: "(voff < length tiff_data
                        \<and> cnt \<le> length (slice tiff_data voff (voff + cnt)))
                      = (voff + cnt \<le> length tiff_data)"
      by (auto simp: slice_def)
    have c: "\<not> cnt \<le> 4" "cnt < 20" using True by simp_all
    show ?thesis
      unfolding ifd_field_def field_timestamp_def prod.case if_P [OF tag] if_P [OF c(2)]
        if_not_P [OF c(1)] bound Let_def
      using True tag by (simp del: set_simps)
  qed
qed

lemma ifd_entry_timestamp:
  "\<exists>cm'. ifd_entry P tiff_data endian entry_offset (dt, cm)
     = Some (case entry_timestamp P tiff_data endian entry_offset of
               Some t \<Rightarrow> t | None \<Rightarrow> dt, cm')"
proof (cases "entry_offset + 12 \<le> length tiff_data")
  case False
  then show ?thesis
    by (simp add: ifd_entry_def entry_timestamp_def)
next
  case True
  have s1: "slice (slice tiff_data entry_offset (entry_offset + 12)) 0 2
            = slice tiff_data entry_offset (entry_offset + 2)"
    using slice_slice [OF True, of 0 2] by simp
  have s2: "slice (slice tiff_data entry_offset (entry_offset + 12)) 2 4
            = slice tiff_data (entry_offset + 2) (entry_offset + 4)"
    using slice_slice [OF True, of 2 4] by simp
  have s3: "slice (slice tiff_data entry_offset (entry_offset + 12)) 4 8
            = slice tiff_data (entry_offset + 4) (entry_offset + 8)"
    using slice_slice [OF True, of 4 8] by simp
  have s4: "slice (slice tiff_data entry_offset (entry_offset + 12)) 8 12
            = slice tiff_data (entry_offset + 8) (entry_offset + 12)"
    using slice_slice [OF True, of 8 12] by simp
  have l: "length (slice tiff_data entry_offset (entry_offset + 12)) = 12"
      "length (slice tiff_data entry_offset (entry_offset + 2)) = 2"
      "length (slice tiff_data (entry_offset + 2) (entry_offset + 4)) = 2"
      "length (slice tiff_data (entry_offset + 4) (entry_offset + 8)) = 4"
      "length (slice tiff_data (entry_offset + 8) (entry_offset + 12)) = 4"
    using True by (simp_all add: length_slice)
  define tag_id where "tag_id = unpack_uint endian (slice tiff_data entry_offset (entry_offset + 2))"
  define cnt where "cnt = unpack_uint endian (slice tiff_data (entry_offset + 4) (entry_offset + 8))"
  define voff where "voff = unpack_uint endian (slice tiff_data (entry_offset + 8) (entry_offset + 12))"
  have e: "ifd_entry P tiff_data endian entry_offset (dt, cm)
           = Some (ifd_field P tiff_data tag_id cnt voff (dt, cm))"
    using True l by (simp add: ifd_entry_def s1 s2 s3 s4 unpack_H_def unpack_L_def
        tag_id_def cnt_def voff_def)
  have t: "entry_timestamp P tiff_data endian entry_offset
           = field_timestamp P tiff_data tag_id cnt voff"
    using True by (simp add: entry_timestamp_def tag_id_def cnt_def voff_def)
  have "ifd_field P tiff_data tag_id cnt voff (dt, cm)
        = (case field_timestamp P tiff_data tag_id cnt voff of Some t \<Rightarrow> t | None \<Rightarrow> dt,
           snd (ifd_field P tiff_data tag_id cnt voff (dt, cm)))"
    using fst_ifd_field [of P tiff_data tag_id cnt voff dt cm]
    by (metis prod.collapse)
  then have "\<exists>cm'. ifd_field P tiff_data tag_id cnt voff (dt, cm)
        = (case field_timestamp P tiff_data tag_id cnt voff of Some t \<Rightarrow> t | None \<Rightarrow> dt, cm')"
    by (rule exI)
  with e t show ?thesis by simp
qed

lemma ifd_loop_last:
  "\<exists>cm'. ifd_loop P tiff_data endian entry_start indices (dt, cm)
     = Some (last (dt # List.map_filter
                     (\<lambda>i. entry_timestamp P tiff_data endian (entry_start + i * 12)) indices), cm')"
proof (induction indices arbitrary: dt cm)
  case Nil
  then show ?case by (simp add: List.map_filter_simps)
next
  case (Cons i indices)
  obtain cm1 where 1: "ifd_entry P tiff_data endian (entry_start + i * 12) (dt, cm)
     = Some (case entry_timestamp P tiff_data endian (entry_start + i * 12) of
               Some t \<Rightarrow> t | None \<Rightarrow> dt, cm1)"
    using ifd_entry_timestamp by blast
  show ?case
  proof (cases "entry_timestamp P tiff_data endian (entry_start + i * 12)")
    case None
    with 1 Cons [of dt cm1] show ?thesis
      by (simp add: List.map_filter_simps)
  next
    case (Some t)
    with 1 Cons [of t cm1] show ?thesis
      by (simp add: List.map_filter_simps)
  qed
qed

text \<open>
  C4, as the program has it. The timestamp of the IFD parse is the last of the stored
  timestamps, in the stored order of the entries and with no priority among the three
  tag ids; it is the unknown time when there is none.
\<close>

theorem parse_ifd_last_timestamp_wins:
  "fst (parse_ifd P tiff_data offset endian)
   = (if offset + 2 > length tiff_data then unknown_time
      else last (unknown_time # stored_timestamps P tiff_data offset endian))"
proof (cases "offset + 2 > length tiff_data")
  case True
  then show ?thesis by (simp add: parse_ifd_def)
next
  case False
  then have "length (slice tiff_data offset (offset + 2)) = 2"
    by (simp add: length_slice)
  then have u: "unpack_H endian (slice tiff_data offset (offset + 2))
                = Some (unpack_uint endian (slice tiff_data offset (offset + 2)))"
    by (simp add: unpack_H_def)
  obtain cm' where "ifd_loop P tiff_data endian (offset + 2)
        [0..<unpack_uint endian (slice tiff_data offset (offset + 2))] (unknown_time, ''Unknown'')
     = Some (last (unknown_time # stored_timestamps P tiff_data offset endian), cm')"
    using ifd_loop_last [of P tiff_data endian "offset + 2" _ unknown_time "''Unknown''"]
    unfolding stored_timestamps_def by blast
  with False u show ?thesis
    by (simp add: parse_ifd_def)
qed

text \<open>
  In \<open>tiff_two_dates\<close> the first stored timestamp is 2021-04-30 09:00:00 and the parse
  returns the second, 2021-05-01 10:00:00.
\<close>

theorem parse_ifd_first_timestamp_loses:
  "\<forall>P. stored_timestamps P tiff_two_dates 8 Little
         = [''20210430_090000'', ''20210501_100000'']
       \<and> fst (parse_ifd P tiff_two_dates 8 Little) = ''20210501_100000''"
  by (simp add: tiff_two_dates_def stored_timestamps_def entry_timestamp_def field_timestamp_def ifd_eval
      normalize_eval)

text \<open>
  C5 at a Model entry of 4 bytes stored inline: the parse leaves the camera model
  \<open>Unknown\<close>, while the same text stored at an offset is adopted.
\<close>

theorem inline_model_value_ignored:
  "\<forall>P. parse_ifd P tiff_inline_model 8 Little = (''20210501_100000'', ''Unknown'')
       \<and> parse_ifd P tiff_offset_model 8 Little = (''20210501_100000'', ''X10'')"
  by (simp add: tiff_inline_model_def tiff_offset_model_def ifd_eval normalize_eval)

subsection \<open>The scan phase\<close>

lemma no_exif_info_not_error: "\<not> contains error_prefix no_exif_info"
  by (simp add: error_prefix_def no_exif_info_def)

lemma process_file_expected:
  "process_file P H TAGS world path = expected_outcome P H TAGS world path"
proof (cases "unexpected_fault (world path)")
  case (Some e)
  then show ?thesis
    by (simp add: process_file_def process_body_def expected_outcome_def Let_def)
next
  case None
  show ?thesis
  proof (cases "first_usable [method1 P TAGS (world path), method2 P TAGS (world path),
                              method3 P TAGS (world path), method4 P (world path)]")
    case n: None
    then have g: "get_advanced_exif_data P TAGS (world path)
                  = (unknown_time, ''Unknown'', Some no_exif_info)"
      by (simp add: get_advanced_exif_data_first_usable)
    show ?thesis
      unfolding process_file_def process_body_def expected_outcome_def Let_def None n g
      by (simp add: no_exif_info_not_error)
  next
    case s: (Some p)
    obtain dt cm where p: "p = (dt, cm)" by (cases p)
    from s p have u: "dt \<noteq> [] \<and> dt \<noteq> unknown_time"
      using first_usable_Some by blast
    from s p have g: "get_advanced_exif_data P TAGS (world path) = (dt, cm, None)"
      by (simp add: get_advanced_exif_data_first_usable)
    show ?thesis
      unfolding process_file_def process_body_def expected_outcome_def Let_def None s p g
      using u by simp
  qed
qed

lemma well_tagged_expected: "well_tagged (expected_outcome P H TAGS world path)"
  by (auto simp: expected_outcome_def split: option.splits dest: first_usable_Some)

lemma result_filepath_expected: "result_filepath (expected_outcome P H TAGS world path) = path"
  by (auto simp: expected_outcome_def split: option.splits)

lemma process_loop_eq:
  "process_loop P H TAGS world tot i paths
   = (map (process_file P H TAGS world) paths, map (\<lambda>k. (i + k + 1, tot)) [0..<length paths])"
proof (induction paths arbitrary: i)
  case Nil
  then show ?case by simp
next
  case (Cons path paths)
  have "map (\<lambda>k. (i + k + 1, tot)) [0..<Suc (length paths)]
        = (i + 1, tot) # map (\<lambda>k. (i + 1 + k + 1, tot)) [0..<length paths]"
    by (simp add: upt_conv_Cons map_Suc_upt [symmetric] del: upt_Suc)
  with Cons [of "i + 1"] show ?case by simp
qed

text \<open>
  C7. \<open>process_files\<close> returns exactly one result per input path, in input order, and
  one progress event per path. The result of a path is its \<open>expected_outcome\<close>: an
  unexpected fault in the loop body gives the failure record tagged \<open>PROCESS_ERROR\<close>, an
  unsupported container the one tagged \<open>NO_HEIC_SUPPORT\<close>, a file in which no stage finds
  a usable time (also because it cannot be read or decoded) the one tagged
  \<open>NO_EXIF_TIME\<close>, and only a file with a usable time gives a success record, which
  carries that time.
\<close>

theorem process_files_one_outcome_per_file:
  "fst (process_files P H TAGS world file_paths)
     = map (expected_outcome P H TAGS world) file_paths
   \<and> length (fst (process_files P H TAGS world file_paths)) = length file_paths
   \<and> map result_filepath (fst (process_files P H TAGS world file_paths)) = file_paths
   \<and> list_all well_tagged (fst (process_files P H TAGS world file_paths))
   \<and> snd (process_files P H TAGS world file_paths)
       = map (\<lambda>k. (k + 1, length file_paths)) [0..<length file_paths]"
proof -
  have r: "fst (process_files P H TAGS world file_paths)
           = map (expected_outcome P H TAGS world) file_paths"
    by (simp add: process_files_def process_loop_eq process_file_expected)
  show ?thesis
    unfolding r
    by (simp add: process_files_def process_loop_eq result_filepath_expected
        well_tagged_expected list_all_iff map_idI comp_def)
qed

text \<open>
  A folder with a dated photo, an unsupported container, a file whose processing raises
  and a file without metadata.
\<close>

theorem process_files_one_outcome_per_file_witness:
  "\<forall>P. process_files P False exif_tags demo_world
         [''/p/a.jpg'', ''/p/b.HEIC'', ''/p/c.png'', ''/p/d.jpg'']
       = ([Renamable ''/p/a.jpg'' ''a.jpg'' ''20210430_090000'' ''Unknown''
             ''20210430_090000_Unknown'' ''.jpg'',
           Unreadable ''/p/b.HEIC'' ''b.HEIC'' None None NO_HEIC_SUPPORT ''NOHEIC_b.HEIC'',
           Unreadable ''/p/c.png'' ''c.png'' None None PROCESS_ERROR ''ERROR_c.png'',
           Unreadable ''/p/d.jpg'' ''d.jpg'' (Some no_time_info) (Some no_camera_info)
             NO_EXIF_TIME ''NOEXIF_d.jpg''],
          [(1, 4), (2, 4), (3, 4), (4, 4)])"
proof
  fix P
  have 1: "parse_exif_with_pil P exif_tags two_dates = (''20210430_090000'', ''Unknown'')"
  proof -
    have s: "scan_fields P exif_tags two_dates time_fields (None, ''Unknown'')
           = (Some ''2021:04:30 09:00:00'', ''Unknown'')"
      by (simp add: two_dates_def exif_tags_def time_fields_def exif_get_def zero_time_def
          strip_def is_space_def is_whitespace_def byte_in_def)
    have f: "format_datetime_string P ''2021:04:30 09:00:00'' = ''20210430_090000''"
      by (simp add: normalize_eval)
    show ?thesis
      unfolding parse_exif_with_pil_def s prod.case option.case f
      by (simp add: unknown_time_def)
  qed
  have ne: "two_dates \<noteq> []"
    by (simp add: two_dates_def)
  have a: "expected_outcome P False exif_tags demo_world ''/p/a.jpg''
           = Renamable ''/p/a.jpg'' ''a.jpg'' ''20210430_090000'' ''Unknown''
               ''20210430_090000_Unknown'' ''.jpg''"
    using ne
    by (simp add: expected_outcome_def demo_world_def no_data_def method1_def 1
        os_path_basename_def os_path_splitext_def lower_def ascii_lower_def
        unknown_time_def Let_def)
  have b: "expected_outcome P False exif_tags demo_world ''/p/b.HEIC''
           = Unreadable ''/p/b.HEIC'' ''b.HEIC'' None None NO_HEIC_SUPPORT ''NOHEIC_b.HEIC''"
    by (simp add: expected_outcome_def demo_world_def no_data_def
        os_path_basename_def os_path_splitext_def lower_def ascii_lower_def Let_def)
  have c: "expected_outcome P False exif_tags demo_world ''/p/c.png''
           = Unreadable ''/p/c.png'' ''c.png'' None None PROCESS_ERROR ''ERROR_c.png''"
    by (simp add: expected_outcome_def demo_world_def no_data_def os_path_basename_def)
  have d: "expected_outcome P False exif_tags demo_world ''/p/d.jpg''
           = Unreadable ''/p/d.jpg'' ''d.jpg'' (Some no_time_info) (Some no_camera_info)
               NO_EXIF_TIME ''NOEXIF_d.jpg''"
    by (simp add: expected_outcome_def demo_world_def no_data_def method1_def method2_def
        method3_def method4_def parse_raw_exif_def
        os_path_basename_def os_path_splitext_def lower_def ascii_lower_def
        unknown_time_def Let_def)
  from process_files_one_outcome_per_file [of P False exif_tags demo_world
      "[''/p/a.jpg'', ''/p/b.HEIC'', ''/p/c.png'', ''/p/d.jpg'']"]
  show "process_files P False exif_tags demo_world
         [''/p/a.jpg'', ''/p/b.HEIC'', ''/p/c.png'', ''/p/d.jpg'']
       = ([Renamable ''/p/a.jpg'' ''a.jpg'' ''20210430_090000'' ''Unknown''
             ''20210430_090000_Unknown'' ''.jpg'',
           Unreadable ''/p/b.HEIC'' ''b.HEIC'' None None NO_HEIC_SUPPORT ''NOHEIC_b.HEIC'',
           Unreadable ''/p/c.png'' ''c.png'' None None PROCESS_ERROR ''ERROR_c.png'',
           Unreadable ''/p/d.jpg'' ''d.jpg'' (Some no_time_info) (Some no_camera_info)
             NO_EXIF_TIME ''NOEXIF_d.jpg''],
          [(1, 4), (2, 4), (3, 4), (4, 4)])"
    by (simp add: a b c d prod_eq_iff upt_conv_Cons)
qed

subsection \<open>The rename executor\<close>

text \<open>
  When the standard output accepts every message, the executor on a finite file system
  finishes for every list of plans, whatever renames fail, with one progress event per
  plan, in order, and counts that add up to the number of plans.
\<close>

lemma os_rename_finite:
  "finite fs \<Longrightarrow> os_rename refused fs src dst = Inr fs' \<Longrightarrow> finite fs'"
  by (auto simp: os_rename_def split: if_splits)

lemma rename_loop_total:
  assumes "finite fs" and "\<forall>msg. stdout_accepts msg"
  shows "\<exists>s e fs'. rename_loop refused stdout_accepts tot i tasks (s0, e0, progress, fs)
            = Some (Finished s e (progress @ map (\<lambda>k. (i + k + 1, tot)) [0..<length tasks]) fs')
          \<and> s + e = s0 + e0 + length tasks \<and> finite fs'"
  using assms(1)
proof (induction tasks arbitrary: i s0 e0 progress fs)
  case Nil
  then show ?case by simp
next
  case (Cons task tasks)
  obtain p where p: "free_path_loop fs task (task_new_path task) 1 = Some p"
    using free_path_loop_total [OF Cons.prems] by blast
  have shift: "map (\<lambda>k. (i + k + 1, tot)) [0..<Suc (length tasks)]
        = (i + 1, tot) # map (\<lambda>k. (i + 1 + k + 1, tot)) [0..<length tasks]"
    by (simp add: upt_conv_Cons map_Suc_upt [symmetric] del: upt_Suc)
  show ?case
  proof (cases "os_rename refused fs (task_filepath task) p")
    case (Inl e)
    from Cons.IH [OF Cons.prems, of "i + 1" s0 "e0 + 1" "progress @ [(i + 1, tot)]"]
    show ?thesis
      using p Inl shift assms(2) by auto
  next
    case (Inr fs')
    then have "finite fs'"
      using Cons.prems os_rename_finite by blast
    from Cons.IH [OF this, of "i + 1" "s0 + 1" e0 "progress @ [(i + 1, tot)]"]
    show ?thesis
      using p Inr shift by auto
  qed
qed

lemma rename_files_when_print_succeeds:
  assumes "finite fs" and "\<forall>msg. stdout_accepts msg"
  shows "\<exists>success_count error_count fs'.
           rename_files refused stdout_accepts rename_tasks fs
             = Some (Finished success_count error_count
                       (map (\<lambda>k. (k + 1, length rename_tasks)) [0..<length rename_tasks]) fs')
           \<and> success_count + error_count = length rename_tasks"
  using rename_loop_total [OF assms, of refused "length rename_tasks" 0 rename_tasks 0 0 "[]"]
  by (auto simp: rename_files_def)

text \<open>
  C8 at three plans whose second source is missing. On a standard output that cannot
  encode the failure message the run is aborted at the second plan: one progress event,
  no \<open>finished\<close> signal, and the third file is not renamed. On a standard output that
  accepts the message the same plans give two successes, one failure, three progress
  events and the third file renamed.
\<close>

theorem rename_files_aborts_when_print_fails:
  "rename_files (\<lambda>src dst. False) ascii_stdout three_plans {''/p/a.jpg'', ''/p/c.jpg''}
     = Some (Aborted (PyException ''UnicodeEncodeError'') [(1, 3)] {''/p/t_c.jpg'', ''/p/c.jpg''})
   \<and> rename_files (\<lambda>src dst. False) (\<lambda>msg. True) three_plans {''/p/a.jpg'', ''/p/c.jpg''}
     = Some (Finished 2 1 [(1, 3), (2, 3), (3, 3)] {''/p/t_c.jpg'', ''/p/t_c_2.jpg''})"
  by (auto simp: rename_files_def three_plans_def free_path_loop.simps os_rename_def
      os_path_exists_def ascii_stdout_def rename_failed_def)

subsection \<open>The orchestrator\<close>

lemma handle_start_sets_flag:
  assumes "handle s fs ev = Some (s1, Some a)" and "is_rename_start a"
  shows "\<not> rename_completed s \<and> rename_completed s1"
  using assms
  by (cases ev)
     (auto simp: preview_names_def app_rename_files_def split: if_splits option.splits)

lemma handle_keeps_rename_completed:
  assumes "rename_completed s" and "\<not> is_reselect ev"
  shows "\<exists>s' act. handle s fs ev = Some (s', act) \<and> rename_completed s'
           \<and> (case act of None \<Rightarrow> True | Some a \<Rightarrow> \<not> is_rename_start a)"
  using assms
  by (cases ev)
     (auto simp: select_folder_def preview_names_def on_preview_finished_def
        app_rename_files_def on_rename_finished_def Let_def)

lemma run_keeps_rename_completed:
  assumes "rename_completed s" and "list_all (\<lambda>(fs, ev). \<not> is_reselect ev) evs"
  shows "\<exists>s' acts. run s evs = Some (s', acts) \<and> rename_completed s'
           \<and> list_all (\<lambda>a. \<not> is_rename_start a) acts"
  using assms
proof (induction evs arbitrary: s)
  case Nil
  then show ?case by simp
next
  case (Cons fe evs)
  obtain fs ev where fe: "fe = (fs, ev)" by (cases fe)
  with Cons.prems have ev: "\<not> is_reselect ev"
    and rest: "list_all (\<lambda>(fs, ev). \<not> is_reselect ev) evs"
    by simp_all
  from handle_keeps_rename_completed [OF Cons.prems(1) ev, of fs]
  obtain s1 act where h: "handle s fs ev = Some (s1, act)" "rename_completed s1"
      "case act of None \<Rightarrow> True | Some a \<Rightarrow> \<not> is_rename_start a"
    by blast
  from Cons.IH [OF h(2) rest]
  obtain s2 acts where r: "run s1 evs = Some (s2, acts)" "rename_completed s2"
      "list_all (\<lambda>a. \<not> is_rename_start a) acts"
    by blast
  from h r fe show ?case
    by (auto split: option.splits)
qed

lemma run_at_most_one_rename:
  assumes "list_all (\<lambda>(fs, ev). \<not> is_reselect ev) evs" and "run s evs = Some (s', acts)"
  shows "length (filter is_rename_start acts) \<le> 1
         \<and> (filter is_rename_start acts \<noteq> [] \<longrightarrow> rename_completed s')"
  using assms
proof (induction evs arbitrary: s s' acts)
  case Nil
  then show ?case by simp
next
  case (Cons fe evs)
  obtain fs ev where fe: "fe = (fs, ev)" by (cases fe)
  with Cons.prems have rest: "list_all (\<lambda>(fs, ev). \<not> is_reselect ev) evs"
    by simp
  from Cons.prems(2) fe obtain s1 act s2 acts2 where
    h: "handle s fs ev = Some (s1, act)" and r: "run s1 evs = Some (s2, acts2)"
    and res: "s' = s2" "acts = (case act of None \<Rightarrow> [] | Some a \<Rightarrow> [a]) @ acts2"
    by (auto split: option.splits)
  show ?case
  proof (cases "\<exists>a. act = Some a \<and> is_rename_start a")
    case True
    then obtain a where a: "act = Some a" "is_rename_start a" by blast
    from handle_start_sets_flag [OF h [unfolded a(1)] a(2)] have "rename_completed s1" by simp
    from run_keeps_rename_completed [OF this rest] r
    have "rename_completed s2" "filter is_rename_start acts2 = []"
      by (auto simp: list_all_iff filter_empty_conv)
    with res a show ?thesis by simp
  next
    case False
    then have "filter is_rename_start (case act of None \<Rightarrow> [] | Some a \<Rightarrow> [a]) = []"
      by (cases act) auto
    with Cons.IH [OF rest r] res show ?thesis by simp
  qed
qed

lemma rename_after_reset:
  "run s [(fs, ResetAll), (fs, PreviewFinished one_photo), ({}, RenameFiles True)]
   = Some ((reset_all s)\<lparr>preview_results := one_photo, rename_completed := True,
                           rename_btn_enabled := False\<rparr>,
           [RenameWorker one_plan])"
  by (simp add: reset_all_def on_preview_finished_def app_rename_files_def one_photo_def
      one_plan_def generate_unique_filename_actual_def os_path_exists_def os_path_dirname_def
      os_path_join_def Let_def)

text \<open>
  C9. A handler that starts a rename worker found \<open>rename_completed\<close> clear and leaves
  it set. In a state with the flag set a rename request is rejected: the state is
  unchanged and no worker is started, and through every sequence of events without a
  reset or a folder selection the flag stays set and no rename worker is started. So a
  run of events without a reset or a folder selection, from any state, starts at most
  one rename worker, and ends with the flag set when it started one. A reset clears the
  flag, and after it a preview and a confirmed request start a rename worker again.
\<close>

theorem rename_at_most_once:
  "(handle s fs ev = Some (s1, Some (RenameWorker rename_tasks))
      \<longrightarrow> \<not> rename_completed s \<and> rename_completed s1)
   \<and> (rename_completed s \<longrightarrow> app_rename_files s fs reply_yes = Some (s, None))
   \<and> (rename_completed s \<and> list_all (\<lambda>(fs, ev). \<not> is_reselect ev) evs
      \<longrightarrow> (\<exists>s' acts. run s evs = Some (s', acts) \<and> rename_completed s'
              \<and> list_all (\<lambda>a. \<not> is_rename_start a) acts))
   \<and> (list_all (\<lambda>(fs, ev). \<not> is_reselect ev) evs \<and> run s evs = Some (s', acts)
      \<longrightarrow> length (filter is_rename_start acts) \<le> 1
          \<and> (filter is_rename_start acts \<noteq> [] \<longrightarrow> rename_completed s'))
   \<and> \<not> rename_completed (reset_all s)
   \<and> run s [(fs, ResetAll), (fs, PreviewFinished one_photo), ({}, RenameFiles True)]
       = Some ((reset_all s)\<lparr>preview_results := one_photo, rename_completed := True,
                               rename_btn_enabled := False\<rparr>,
               [RenameWorker one_plan])"
proof (intro conjI impI)
  show "\<not> rename_completed s" "rename_completed s1"
    if "handle s fs ev = Some (s1, Some (RenameWorker rename_tasks))"
    using handle_start_sets_flag [OF that] by simp_all
  show "app_rename_files s fs reply_yes = Some (s, None)" if "rename_completed s"
    using that by (simp add: app_rename_files_def)
  show "\<exists>s' acts. run s evs = Some (s', acts) \<and> rename_completed s'
          \<and> list_all (\<lambda>a. \<not> is_rename_start a) acts"
    if "rename_completed s \<and> list_all (\<lambda>(fs, ev). \<not> is_reselect ev) evs"
    using that run_keeps_rename_completed by blast
  show "length (filter is_rename_start acts) \<le> 1"
    if "list_all (\<lambda>(fs, ev). \<not> is_reselect ev) evs \<and> run s evs = Some (s', acts)"
    using that run_at_most_one_rename by blast
  show "rename_completed s'"
    if "list_all (\<lambda>(fs, ev). \<not> is_reselect ev) evs \<and> run s evs = Some (s', acts)"
      and "filter is_rename_start acts \<noteq> []"
    using that run_at_most_one_rename by blast
  show "\<not> rename_completed (reset_all s)"
    by (simp add: reset_all_def)
  show "run s [(fs, ResetAll), (fs, PreviewFinished one_photo), ({}, RenameFiles True)]
       = Some ((reset_all s)\<lparr>preview_results := one_photo, rename_completed := True,
                               rename_btn_enabled := False\<rparr>,
               [RenameWorker one_plan])"
    by (rule rename_after_reset)
qed

theorem rename_at_most_once_witness:
  "list_all (\<lambda>(fs, ev). \<not> is_reselect ev) session
   \<and> run init_app session = Some (done_app, [RenameWorker one_plan])
   \<and> handle (on_preview_finished init_app one_photo) {''/p/a.jpg''} (RenameFiles True)
       = Some (done_app, Some (RenameWorker one_plan))
   \<and> \<not> rename_completed (on_preview_finished init_app one_photo)
   \<and> rename_completed done_app
   \<and> app_rename_files done_app {''/p/20210430_090000_Canon.jpg''} True = Some (done_app, None)
   \<and> length (filter is_rename_start [RenameWorker one_plan]) \<le> 1"
proof -
  have l: "list_all (\<lambda>(fs, ev). \<not> is_reselect ev) session"
    by (simp add: session_def)
  have r: "run init_app session = Some (done_app, [RenameWorker one_plan])"
    by (simp add: session_def init_app_def done_app_def one_photo_def one_plan_def
        on_preview_finished_def app_rename_files_def on_rename_finished_def select_folder_def
        generate_unique_filename_actual_def os_path_exists_def os_path_dirname_def
        os_path_join_def Let_def)
  have h: "handle (on_preview_finished init_app one_photo) {''/p/a.jpg''} (RenameFiles True)
       = Some (done_app, Some (RenameWorker one_plan))"
    by (simp add: init_app_def done_app_def one_photo_def one_plan_def
        on_preview_finished_def app_rename_files_def
        generate_unique_filename_actual_def os_path_exists_def os_path_dirname_def
        os_path_join_def Let_def)
  note T = rename_at_most_once [where s = "on_preview_finished init_app one_photo"
      and fs = "{''/p/a.jpg''}" and ev = "RenameFiles True" and ?s1.0 = done_app
      and rename_tasks = one_plan]
  from T h have f: "\<not> rename_completed (on_preview_finished init_app one_photo)"
      "rename_completed done_app"
    by blast+
  note U = rename_at_most_once [where s = done_app
      and fs = "{''/p/20210430_090000_Canon.jpg''}" and reply_yes = True]
  from U f(2) have a: "app_rename_files done_app {''/p/20210430_090000_Canon.jpg''} True
      = Some (done_app, None)"
    by blast
  note V = rename_at_most_once [where s = init_app and evs = session and s' = done_app
      and acts = "[RenameWorker one_plan]"]
  from V l r have c: "length (filter is_rename_start [RenameWorker one_plan]) \<le> 1"
    by blast
  from l r h f a c show ?thesis
    by (intro conjI)
qed

end
